theory Spec2Isabelle
  imports Complex_Main "HOL-Library.Sublist"
begin

section \<open>C strings\<close>

text \<open>
  A \<^verbatim>\<open>const char *\<close> that is not NULL is a \<^typ>\<open>string\<close> (the bytes before the
  terminating NUL); a pointer that may be NULL is a \<^typ>\<open>string option\<close>.
  \<^verbatim>\<open>strlen\<close> is \<^const>\<open>length\<close>, \<^verbatim>\<open>strcmp(a,b) == 0\<close> is \<open>a = b\<close>.
\<close>

definition c_tolower :: "char \<Rightarrow> char" where
  \<comment> \<open>\<^verbatim>\<open>tolower\<close> in the C locale: only the 26 ASCII capitals change.\<close>
  "c_tolower c =
     (case map_of (zip ''ABCDEFGHIJKLMNOPQRSTUVWXYZ'' ''abcdefghijklmnopqrstuvwxyz'') c of
        Some l \<Rightarrow> l
      | None \<Rightarrow> c)"

definition EQUAL :: "string \<Rightarrow> string \<Rightarrow> bool" where
  \<comment> \<open>Modelled from the spec: the \<^verbatim>\<open>EQUAL\<close> macro of cpl_port.h (not under src), which the
      spec describes as a case-insensitive comparison; \<^verbatim>\<open>strcasecmp(a,b) == 0\<close>.\<close>
  "EQUAL a b = (map c_tolower a = map c_tolower b)"

definition strncmp_eq :: "string \<Rightarrow> string \<Rightarrow> nat \<Rightarrow> bool" where
  \<comment> \<open>\<^verbatim>\<open>strncmp(a, b, n) == 0\<close> on NUL-terminated strings: the first \<open>n\<close> bytes agree,
      a string that ends earlier agreeing only with one that ends at the same place.\<close>
  "strncmp_eq a b n = (take n a = take n b)"

fun strstr_found :: "string \<Rightarrow> string \<Rightarrow> bool" where
  \<comment> \<open>\<^verbatim>\<open>strstr(hay, needle) != NULL\<close>.\<close>
  "strstr_found [] needle = (needle = [])"
| "strstr_found (c # cs) needle =
     (take (length needle) (c # cs) = needle \<or> strstr_found cs needle)"

fun strrchr_tail :: "char \<Rightarrow> string \<Rightarrow> string option" where
  \<comment> \<open>\<^verbatim>\<open>strrchr(s, c) + 1\<close>: what follows the last occurrence of \<open>c\<close>;
      \<open>None\<close> when \<^verbatim>\<open>strrchr\<close> (and so \<^verbatim>\<open>strchr\<close>) returns NULL.\<close>
  "strrchr_tail c [] = None"
| "strrchr_tail c (x # xs) =
     (case strrchr_tail c xs of
        Some t \<Rightarrow> Some t
      | None \<Rightarrow> if x = c then Some xs else None)"

definition digit_char :: "nat \<Rightarrow> char" where
  "digit_char d = ''0123456789'' ! d"

function dec_text :: "nat \<Rightarrow> string" where
  \<comment> \<open>what \<^verbatim>\<open>%d\<close> prints for a number that is not negative\<close>
  "dec_text n =
     (if n < 10 then [digit_char n] else dec_text (n div 10) @ [digit_char (n mod 10)])"
  by pat_completeness auto

termination dec_text
  by (relation "measure (\<lambda>n. n)") auto

declare dec_text.simps [simp del]

section \<open>Data model\<close>

datatype cpl_msg =
    CPLDebug string string
  | CPLError_Failure string
  | CPLError_Warning string

datatype CPLXMLNodeType = CXT_Element | CXT_Text | CXT_Attribute | CXT_Comment | CXT_Literal

datatype CPLXMLNode =
  XMLNode (xml_eType: CPLXMLNodeType) (xml_pszValue: string) (xml_psChild: "CPLXMLNode list")
  \<comment> \<open>\<^verbatim>\<open>eType\<close>, \<^verbatim>\<open>pszValue\<close>, and the \<^verbatim>\<open>psChild\<close>/\<^verbatim>\<open>psNext\<close> chain of children as a list\<close>

text \<open>
  The declarations of gmlreader.h and gmlreaderp.h are not under src; the records below
  carry the members that gmlreader.cpp reads and writes, under the names it uses.
\<close>

datatype GMLPropertyType =
    GMLPT_Untyped | GMLPT_String | GMLPT_Integer | GMLPT_Real
  | GMLPT_StringList | GMLPT_IntegerList | GMLPT_RealList

record GMLPropertyDefn =
  m_pszName :: string
  m_pszSrcElement :: string
  m_eType :: GMLPropertyType

datatype OGRwkbGeometryType =
    wkbUnknown | wkbPoint | wkbLineString | wkbPolygon
  | wkbMultiPoint | wkbMultiLineString | wkbMultiPolygon | wkbGeometryCollection
  | wkbNone

record GMLFeatureClass =
  m_pszClassName :: string
  m_pszElementName :: string
  m_papoProperty :: "GMLPropertyDefn list"
  m_bSchemaLocked :: bool
  m_nFeatureCount :: int
  m_nGeometryType :: OGRwkbGeometryType
  m_extents :: "(real \<times> real \<times> real \<times> real) option"
  m_pszSRSName :: "string option"
  m_bSRSNameConsistent :: bool

definition new_GMLFeatureClass :: "string \<Rightarrow> GMLFeatureClass" where
  \<comment> \<open>Modelled from the spec: the constructor \<^verbatim>\<open>GMLFeatureClass(pszName)\<close> of
      gmlfeatureclass.cpp, which is not under src. The spec has the name initially the
      element's local name, the feature count unknown (-1), the geometry type unknown
      ("not yet set"), no extents, no SRS and no properties.\<close>
  "new_GMLFeatureClass pszName =
     \<lparr> m_pszClassName = pszName, m_pszElementName = pszName, m_papoProperty = [],
       m_bSchemaLocked = False, m_nFeatureCount = - 1, m_nGeometryType = wkbUnknown,
       m_extents = None, m_pszSRSName = None, m_bSRSNameConsistent = True \<rparr>"

text \<open>
  A feature points at its class; the registry owns the classes in an array. The pointer is
  the position of the class in \<open>m_papoClass\<close>, which is stable until \<open>ClearClasses\<close>.
\<close>

record GMLFeature =
  m_poClass :: nat
  m_pszFID :: "string option"
  m_papszProperty :: "string option list"
  m_papsGeometry :: "CPLXMLNode list"

record GMLReadState =
  m_poFeature :: "GMLFeature option"
  m_papszPathComponents :: "string list"

definition new_GMLReadState :: GMLReadState where
  "new_GMLReadState = \<lparr> m_poFeature = None, m_papszPathComponents = [] \<rparr>"

definition GetLastComponent :: "GMLReadState \<Rightarrow> string" where
  \<comment> \<open>Modelled from the spec: \<^verbatim>\<open>GMLReadState::GetLastComponent\<close> (gmlreadstate.cpp is not
      under src), the innermost element name of the path; the empty string stands for an
      empty path.\<close>
  "GetLastComponent st =
     (if m_papszPathComponents st = [] then [] else last (m_papszPathComponents st))"

subsection \<open>What the tokenizer and its handler do to the reader\<close>

text \<open>
  The XML tokenizers and the element handler are outside gmlreader.cpp. One call of the
  tokenizer (\<^verbatim>\<open>parseFirst\<close>/\<^verbatim>\<open>parseNext\<close> for Xerces, \<^verbatim>\<open>XML_Parse\<close> on one buffer for
  Expat) is described by the calls the handler makes into the reader while it runs, and by
  how the tokenizer call ends. Property events reach \<open>SetFeatureProperty\<close>, which is
  modelled on its own below; they touch neither the state stack nor the delivery of
  features and are not part of the script.
\<close>

datatype handler_call =
    CallPushFeature string "string option" "CPLXMLNode list"
    \<comment> \<open>feature element start: element name, fid, and the geometry elements the handler
        attaches to the feature while it is being read\<close>
  | CallPopState
    \<comment> \<open>feature element end\<close>

datatype tok_failure = XMLException_thrown string | SAXException_thrown string

record chunk =
  ch_calls :: "handler_call list"
  ch_failure :: "tok_failure option"
    \<comment> \<open>Xerces: the exception thrown after the calls; Expat: \<^verbatim>\<open>XML_STATUS_ERROR\<close>, the
        text being \<^verbatim>\<open>XML_ErrorString(XML_GetErrorCode(oParser))\<close>\<close>
  ch_line :: nat
  ch_column :: nat
    \<comment> \<open>Expat: \<^verbatim>\<open>XML_GetCurrentLineNumber\<close> and \<^verbatim>\<open>XML_GetCurrentColumnNumber\<close> after
        the buffer\<close>
  ch_handler_stopped :: bool
    \<comment> \<open>Expat: \<^verbatim>\<open>HasStoppedParsing()\<close> of the handler after the buffer\<close>

record vsi_file =
  f_all :: "chunk list"
  f_rest :: "chunk list"

record sys_env =
  VSIFOpenL :: "string option \<Rightarrow> chunk list option"
    \<comment> \<open>opening the file of that name for reading; \<open>None\<close> is a NULL handle\<close>
  XercesInitOK :: bool
    \<comment> \<open>\<^verbatim>\<open>XMLPlatformUtils::Initialize()\<close> does not throw\<close>
  XercesCreateOK :: bool
    \<comment> \<open>creating and configuring the SAX reader does not throw\<close>

subsection \<open>The reader\<close>

record GMLReader =
  m_bXercesInitialized :: bool
  bUseExpatReader :: bool
  m_papoClass :: "GMLFeatureClass list"
  m_bClassListLocked :: bool
  m_poGMLHandler :: bool
  m_poSAXReader :: bool
  m_poCompleteFeature :: "GMLFeature option"
  m_GMLInputSource :: bool
  oParser :: bool
  ppoFeatureTab :: "GMLFeature list"
  nFeatureTabIndex :: nat
  fpGML :: "vsi_file option"
  m_bReadStarted :: bool
  m_poState :: "GMLReadState list"
  m_pszFilename :: "string option"
  m_bStopParsing :: bool
  m_bInvertAxisOrderIfLatLong :: bool
  m_bConsiderEPSGAsURN :: bool
  m_pszGlobalSRSName :: "string option"
  m_bCanUseGlobalSRSName :: bool
  m_pszFilteredClassName :: "string option"
  cpl_log :: "cpl_msg list"

text \<open>
  Pointers that gmlreader.cpp only tests against NULL are booleans (\<open>True\<close>: not NULL).
  \<open>m_papoClass\<close> with \<open>m_nClassCount\<close> is a list, \<open>ppoFeatureTab\<close> with
  \<open>nFeatureTabLength\<close> is a list, and the chain of \<open>m_poParentState\<close> pointers from
  \<open>m_poState\<close> is a list with the current state at its head (\<open>[]\<close>: NULL).
  \<open>cpl_log\<close> is the process-wide CPL message sink and \<open>m_bXercesInitialized\<close> a
  static member; both are carried with the reader.
  The constructor is the build with both Expat and Xerces compiled in.
\<close>

definition new_GMLReader :: "bool \<Rightarrow> bool \<Rightarrow> bool \<Rightarrow> GMLReader" where
  "new_GMLReader bUseExpatParserPreferably bInvertAxisOrderIfLatLong bConsiderEPSGAsURN =
     \<lparr> m_bXercesInitialized = False,
       bUseExpatReader = bUseExpatParserPreferably,
       m_papoClass = [], m_bClassListLocked = False, m_poGMLHandler = False,
       m_poSAXReader = False, m_poCompleteFeature = None, m_GMLInputSource = False,
       oParser = False, ppoFeatureTab = [], nFeatureTabIndex = 0, fpGML = None,
       m_bReadStarted = False, m_poState = [], m_pszFilename = None,
       m_bStopParsing = False,
       m_bInvertAxisOrderIfLatLong = bInvertAxisOrderIfLatLong,
       m_bConsiderEPSGAsURN = bConsiderEPSGAsURN,
       m_pszGlobalSRSName = None, m_bCanUseGlobalSRSName = False,
       m_pszFilteredClassName = None,
       cpl_log = [CPLDebug ''GML''
                   (if bUseExpatParserPreferably then ''Using Expat reader''
                    else ''Using Xerces reader'')] \<rparr>"

definition SetSourceFile :: "string \<Rightarrow> GMLReader \<Rightarrow> GMLReader" where
  "SetSourceFile pszFilename r = r\<lparr> m_pszFilename := Some pszFilename \<rparr>"

section \<open>The feature-class registry\<close>

definition GetClassCount :: "GMLReader \<Rightarrow> int" where
  "GetClassCount r = int (length (m_papoClass r))"

definition GetClass :: "GMLReader \<Rightarrow> int \<Rightarrow> GMLFeatureClass option" where
  "GetClass r iClass =
     (if iClass < 0 \<or> iClass \<ge> GetClassCount r then None
      else Some (m_papoClass r ! nat iClass))"

fun find_class_by_name :: "GMLFeatureClass list \<Rightarrow> string \<Rightarrow> GMLFeatureClass option" where
  "find_class_by_name [] pszName = None"
| "find_class_by_name (c # cs) pszName =
     (if EQUAL (m_pszClassName c) pszName then Some c else find_class_by_name cs pszName)"

definition GetClass_by_name :: "GMLReader \<Rightarrow> string \<Rightarrow> GMLFeatureClass option" where
  \<comment> \<open>the overload \<^verbatim>\<open>GetClass(const char *pszName)\<close>: the first class, in index order,
      whose name equals \<open>pszName\<close> under \<open>EQUAL\<close>\<close>
  "GetClass_by_name r pszName = find_class_by_name (m_papoClass r) pszName"

text \<open>
  \<^verbatim>\<open>CPLAssert\<close> is compiled out unless \<^verbatim>\<open>DEBUG\<close> is defined; the model is the release
  build, where \<open>AddClass\<close> and \<open>PushFeature\<close> go on whatever their assertions say.
\<close>

definition AddClass :: "GMLFeatureClass \<Rightarrow> GMLReader \<Rightarrow> int \<times> GMLReader" where
  "AddClass poNewClass r =
     (let r' = r\<lparr> m_papoClass := m_papoClass r @ [poNewClass] \<rparr>
      in (GetClassCount r' - 1, r'))"

definition ClearClasses :: "GMLReader \<Rightarrow> GMLReader" where
  "ClearClasses r = r\<lparr> m_papoClass := [] \<rparr>"

definition IsClassListLocked :: "GMLReader \<Rightarrow> bool" where
  "IsClassListLocked r = m_bClassListLocked r"

definition SetClassListLocked :: "bool \<Rightarrow> GMLReader \<Rightarrow> GMLReader" where
  "SetClassListLocked bFlag r = r\<lparr> m_bClassListLocked := bFlag \<rparr>"

section \<open>The read-state stack\<close>

definition PushState :: "GMLReadState \<Rightarrow> GMLReader \<Rightarrow> GMLReader" where
  "PushState poState r = r\<lparr> m_poState := poState # m_poState r \<rparr>"

definition PopState :: "GMLReader \<Rightarrow> GMLReader" where
  "PopState r =
     (case m_poState r of
        [] \<Rightarrow> r
      | st # poParent \<Rightarrow>
          (let r1 = (if \<not> bUseExpatReader r \<and> m_poFeature st \<noteq> None
                        \<and> m_poCompleteFeature r = None
                     then r\<lparr> m_poCompleteFeature := m_poFeature st \<rparr>
                     else r);
               r2 = (case m_poFeature st of
                       Some f \<Rightarrow>
                         if bUseExpatReader r1
                         then r1\<lparr> ppoFeatureTab := ppoFeatureTab r1 @ [f] \<rparr>
                         else r1
                     | None \<Rightarrow> r1)
           in r2\<lparr> m_poState := poParent \<rparr>))"

section \<open>PushFeature\<close>

fun find_element_class :: "GMLFeatureClass list \<Rightarrow> string \<Rightarrow> nat" where
  \<comment> \<open>the search loop of \<open>PushFeature\<close>: the number of classes passed over before the first
      one whose element name equals \<open>pszElement\<close> under \<open>EQUAL\<close>; the class count when
      there is none\<close>
  "find_element_class [] pszElement = 0"
| "find_element_class (c # cs) pszElement =
     (if EQUAL pszElement (m_pszElementName c) then 0
      else Suc (find_element_class cs pszElement))"

definition new_GMLFeature :: "nat \<Rightarrow> GMLFeature" where
  "new_GMLFeature iClass =
     \<lparr> m_poClass = iClass, m_pszFID = None, m_papszProperty = [], m_papsGeometry = [] \<rparr>"

definition PushFeature :: "string \<Rightarrow> string option \<Rightarrow> GMLReader \<Rightarrow> GMLReader" where
  "PushFeature pszElement pszFID r =
     (let iClass = find_element_class (m_papoClass r) pszElement;
          r1 = (if int iClass = GetClassCount r
                then snd (AddClass (new_GMLFeatureClass pszElement) r)
                else r);
          poFeature = new_GMLFeature iClass;
          poFeature = (case pszFID of
                         Some fid \<Rightarrow> poFeature\<lparr> m_pszFID := Some fid \<rparr>
                       | None \<Rightarrow> poFeature)
      in PushState (new_GMLReadState\<lparr> m_poFeature := Some poFeature \<rparr>) r1)"

definition no_duplicate_class :: "GMLFeatureClass list \<Rightarrow> bool" where
  \<comment> \<open>no two classes of the list have element names that are equal under \<open>EQUAL\<close>\<close>
  "no_duplicate_class cs = distinct (map (\<lambda>c. map c_tolower (m_pszElementName c)) cs)"

section \<open>SetGlobalSRSName\<close>

definition SetGlobalSRSName :: "string option \<Rightarrow> GMLReader \<Rightarrow> GMLReader" where
  \<comment> \<open>\<^verbatim>\<open>CPLSPrintf("urn:ogc:def:crs:EPSG::%s", p + 5)\<close> is taken as the plain
      concatenation.\<close>
  "SetGlobalSRSName pszGlobalSRSName r =
     (case (m_pszGlobalSRSName r, pszGlobalSRSName) of
        (None, Some s) \<Rightarrow>
          if strncmp_eq s ''EPSG:'' 5 \<and> m_bConsiderEPSGAsURN r
          then r\<lparr> m_pszGlobalSRSName := Some (''urn:ogc:def:crs:EPSG::'' @ drop 5 s) \<rparr>
          else r\<lparr> m_pszGlobalSRSName := Some s \<rparr>
      | _ \<Rightarrow> r)"

definition GetState :: "GMLReader \<Rightarrow> GMLReadState option" where
  "GetState r = (case m_poState r of [] \<Rightarrow> None | st # _ \<Rightarrow> Some st)"

definition current_feature :: "GMLReader \<Rightarrow> GMLFeature option" where
  \<comment> \<open>\<^verbatim>\<open>GetState()->m_poFeature\<close>, \<open>None\<close> also when there is no state\<close>
  "current_feature r = (case GetState r of None \<Rightarrow> None | Some st \<Rightarrow> m_poFeature st)"

definition register_all :: "GMLFeatureClass list \<Rightarrow> GMLReader \<Rightarrow> GMLReader" where
  \<comment> \<open>\<open>AddClass\<close> called on each class of a list, in order\<close>
  "register_all cs r = foldl (\<lambda>r c. snd (AddClass c r)) r cs"

section \<open>IsFeatureElement\<close>

datatype error = NullDereference | DanglingClassPointer

definition c_str :: "string \<Rightarrow> string" where
  \<comment> \<open>the C string that starts at the first of these bytes\<close>
  "c_str bytes = takeWhile (\<lambda>c. c \<noteq> CHR 0x00) bytes"

definition str_at :: "char \<Rightarrow> string \<Rightarrow> int \<Rightarrow> string" where
  \<comment> \<open>The C string at \<^verbatim>\<open>p + k\<close> for a string \<open>p\<close> and \<open>-1 \<le> k \<le> strlen(p)\<close>. At
      \<open>k = -1\<close> the read starts one byte before the buffer; \<open>cBefore\<close> is the byte
      that memory holds there.\<close>
  "str_at cBefore p k = (if k < 0 then c_str (cBefore # p) else drop (nat k) p)"

definition class_list_has_element :: "GMLReader \<Rightarrow> string \<Rightarrow> bool" where
  \<comment> \<open>the closing loop of \<open>IsFeatureElement\<close>\<close>
  "class_list_has_element r pszElement =
     list_ex (\<lambda>c. EQUAL pszElement (m_pszElementName c)) (m_papoClass r)"

definition IsFeatureElement :: "char \<Rightarrow> string \<Rightarrow> GMLReader \<Rightarrow> error + bool" where
  \<comment> \<open>\<open>cBefore\<close>: the byte stored just before the last path component, which the
      comparison with "members" reads when that component has exactly six characters.\<close>
  "IsFeatureElement cBefore pszElement r =
     (case m_poState r of
        [] \<Rightarrow> Inl NullDereference
      | st # _ \<Rightarrow>
          (let pszLast = GetLastComponent st;
               nLen = length pszLast;
               nElementLength = length pszElement;
               after_context =
                 (if \<not> IsClassListLocked r then True
                  else class_list_has_element r pszElement)
           in if pszLast = ''dane'' then Inr after_context
              else if pszLast = ''GeocodeResponseList'' \<and> pszElement = ''GeocodedAddress''
                then Inr after_context
              else if pszLast = ''DetermineRouteResponse''
                then (if pszElement = ''RouteInstructionsList'' then Inr False
                      else Inr after_context)
              else if pszElement = ''RouteInstruction'' \<and> pszLast = ''RouteInstructionsList''
                then Inr after_context
              else if nLen > 6 \<and> drop (nLen - 6) pszLast = ''_layer''
                      \<and> nElementLength > 8
                      \<and> drop (nElementLength - 8) pszElement = ''_feature''
                then Inr after_context
              else if nLen < 6
                      \<or> \<not> (EQUAL (str_at cBefore pszLast (int nLen - 6)) ''member''
                            \<or> EQUAL (str_at cBefore pszLast (int nLen - 7)) ''members'')
                then Inr False
              else Inr after_context))"

definition dialect_case :: "string \<Rightarrow> string \<Rightarrow> bool" where
  \<comment> \<open>the branches of \<open>IsFeatureElement\<close> taken before the member test: Polish TBD GML,
      OpenLS, and the MapServer \<^verbatim>\<open>_layer\<close>/\<^verbatim>\<open>_feature\<close> answer\<close>
  "dialect_case pszLast pszElement =
     (pszLast = ''dane''
      \<or> (pszLast = ''GeocodeResponseList'' \<and> pszElement = ''GeocodedAddress'')
      \<or> pszLast = ''DetermineRouteResponse''
      \<or> (pszElement = ''RouteInstruction'' \<and> pszLast = ''RouteInstructionsList'')
      \<or> (length pszLast > 6 \<and> suffix ''_layer'' pszLast
          \<and> length pszElement > 8 \<and> suffix ''_feature'' pszElement))"

definition ends_in_ci :: "string \<Rightarrow> string \<Rightarrow> bool" where
  \<comment> \<open>\<open>s\<close> ends in \<open>tail\<close>, letter case aside\<close>
  "ends_in_ci tail s = suffix (map c_tolower tail) (map c_tolower s)"

section \<open>SetFeatureProperty\<close>

definition GetPropertyCount :: "GMLFeatureClass \<Rightarrow> int" where
  "GetPropertyCount poClass = int (length (m_papoProperty poClass))"

definition IsSchemaLocked :: "GMLFeatureClass \<Rightarrow> bool" where
  "IsSchemaLocked poClass = m_bSchemaLocked poClass"

fun find_src_element :: "GMLPropertyDefn list \<Rightarrow> string \<Rightarrow> nat" where
  \<comment> \<open>the search loop of \<open>SetFeatureProperty\<close>: the index of the first property whose
      source element is \<open>pszElement\<close> (\<^verbatim>\<open>strcmp\<close>), the property count when there is none\<close>
  "find_src_element [] pszElement = 0"
| "find_src_element (p # ps) pszElement =
     (if m_pszSrcElement p = pszElement then 0 else Suc (find_src_element ps pszElement))"

fun find_field_name :: "GMLPropertyDefn list \<Rightarrow> string \<Rightarrow> nat option" where
  "find_field_name [] pszName = None"
| "find_field_name (p # ps) pszName =
     (if m_pszName p = pszName then Some 0
      else map_option Suc (find_field_name ps pszName))"

definition GetPropertyIndex :: "GMLFeatureClass \<Rightarrow> string \<Rightarrow> int" where
  \<comment> \<open>Modelled from the spec: \<^verbatim>\<open>GMLFeatureClass::GetPropertyIndex\<close> (gmlfeatureclass.cpp is
      not under src). The spec has a derived name "collide with an existing field name";
      the index of the property with that field name, -1 when there is none.\<close>
  "GetPropertyIndex poClass pszName =
     (case find_field_name (m_papoProperty poClass) pszName of
        None \<Rightarrow> - 1
      | Some i \<Rightarrow> int i)"

definition GetProperty_by_name :: "GMLFeatureClass \<Rightarrow> string \<Rightarrow> GMLPropertyDefn option" where
  \<comment> \<open>Modelled from the spec: the overload \<^verbatim>\<open>GMLFeatureClass::GetProperty(const char *)\<close>,
      not under src: the property with that field name, NULL when there is none.\<close>
  "GetProperty_by_name poClass pszName =
     (case find_field_name (m_papoProperty poClass) pszName of
        None \<Rightarrow> None
      | Some i \<Rightarrow> Some (m_papoProperty poClass ! i))"

definition new_GMLPropertyDefn :: "string \<Rightarrow> string \<Rightarrow> GMLPropertyDefn" where
  \<comment> \<open>Modelled from the spec: the constructor \<^verbatim>\<open>GMLPropertyDefn(pszName, pszSrcElement)\<close>
      of gmlpropertydefn.cpp, which is not under src. The type of a fresh definition is
      the \<open>unknown\<close> from which the widening rules of the spec start (an integer value
      widens \<open>unknown\<close> to integer, a real one \<open>unknown\<close> or integer to real; the values
      \<open>1\<close> then \<open>2.5\<close> leave a real property). It is not yet string:
      \<open>SetFeatureProperty\<close> sets string itself, and only under \<^verbatim>\<open>ALWAYS_STRING\<close>, which
      the spec has keep new properties from ever being widened to numeric.\<close>
  "new_GMLPropertyDefn pszName pszSrcElement =
     \<lparr> m_pszName = pszName, m_pszSrcElement = pszSrcElement, m_eType = GMLPT_Untyped \<rparr>"

definition AddProperty :: "GMLPropertyDefn \<Rightarrow> GMLFeatureClass \<Rightarrow> int \<times> GMLFeatureClass" where
  \<comment> \<open>Modelled from the spec: \<^verbatim>\<open>GMLFeatureClass::AddProperty\<close>, not under src. The spec
      keeps field names unique within a class: a definition whose field name is taken is
      refused (a negative result, which \<open>SetFeatureProperty\<close> tests for), any other is
      appended and its index returned.\<close>
  "AddProperty poDefn poClass =
     (if GetProperty_by_name poClass (m_pszName poDefn) \<noteq> None then (- 1, poClass)
      else (GetPropertyCount poClass,
            poClass\<lparr> m_papoProperty := m_papoProperty poClass @ [poDefn] \<rparr>))"

definition SetProperty :: "nat \<Rightarrow> string \<Rightarrow> GMLFeature \<Rightarrow> GMLFeature" where
  \<comment> \<open>Modelled from the spec: \<^verbatim>\<open>GMLFeature::SetProperty\<close>, not under src. The values are
      an array indexed like the class's properties; it is grown with unset entries up to
      the index and the value is stored there.\<close>
  "SetProperty iIndex pszValue poFeature =
     (let padded = m_papszProperty poFeature
                     @ replicate (Suc iIndex - length (m_papszProperty poFeature)) None
      in poFeature\<lparr> m_papszProperty := padded[iIndex := Some pszValue] \<rparr>)"

definition GetProperty_value :: "GMLFeature \<Rightarrow> nat \<Rightarrow> string option" where
  \<comment> \<open>Modelled from the spec: \<^verbatim>\<open>GMLFeature::GetProperty\<close>, not under src: the value stored
      at the index, NULL when none is.\<close>
  "GetProperty_value poFeature iIndex =
     (if iIndex < length (m_papszProperty poFeature) then m_papszProperty poFeature ! iIndex
      else None)"

definition CPLGetConfigOption :: "(string \<Rightarrow> string option) \<Rightarrow> string \<Rightarrow> string \<Rightarrow> string" where
  "CPLGetConfigOption cfg pszKey pszDefault =
     (case cfg pszKey of Some v \<Rightarrow> v | None \<Rightarrow> pszDefault)"

definition longest_field_name :: "GMLFeatureClass \<Rightarrow> nat" where
  "longest_field_name poClass = fold max (map (\<lambda>p. length (m_pszName p)) (m_papoProperty poClass)) 0"

function unique_field_name :: "GMLFeatureClass \<Rightarrow> string \<Rightarrow> string" where
  \<comment> \<open>\<^verbatim>\<open>while( poClass->GetProperty(osFieldName) != NULL ) osFieldName += "_";\<close>\<close>
  "unique_field_name poClass osFieldName =
     (if GetProperty_by_name poClass osFieldName \<noteq> None
      then unique_field_name poClass (osFieldName @ ''_'')
      else osFieldName)"
  by pat_completeness auto

lemma fold_max_ge: "(a::nat) \<le> fold max xs a"
  by (induction xs arbitrary: a) (auto intro: le_trans [OF max.cobounded2])

lemma find_field_name_length:
  "find_field_name ps n = Some i \<Longrightarrow> length n \<le> fold max (map (\<lambda>p. length (m_pszName p)) ps) k"
proof (induction ps arbitrary: i k)
  case Nil
  then show ?case by simp
next
  case (Cons p ps)
  show ?case
  proof (cases "m_pszName p = n")
    case True
    then show ?thesis
      using fold_max_ge [of "max (length n) k" "map (\<lambda>p. length (m_pszName p)) ps"] by simp
  next
    case False
    with Cons.prems obtain j where "find_field_name ps n = Some j" by auto
    from Cons.IH [OF this] show ?thesis by simp
  qed
qed

termination unique_field_name
proof (relation "measure (\<lambda>(poClass, osFieldName).
                   Suc (longest_field_name poClass) - length osFieldName)")
  show "wf (measure (\<lambda>(poClass, osFieldName).
              Suc (longest_field_name poClass) - length osFieldName))"
    by simp
next
  fix poClass :: GMLFeatureClass and osFieldName :: string
  assume "GetProperty_by_name poClass osFieldName \<noteq> None"
  then obtain i where "find_field_name (m_papoProperty poClass) osFieldName = Some i"
    by (auto simp: GetProperty_by_name_def split: option.splits)
  then have "length osFieldName \<le> longest_field_name poClass"
    unfolding longest_field_name_def by (rule find_field_name_length)
  then show "((poClass, osFieldName @ ''_''), (poClass, osFieldName))
               \<in> measure (\<lambda>(poClass, osFieldName).
                     Suc (longest_field_name poClass) - length osFieldName)"
    by simp
qed

declare unique_field_name.simps [simp del]

definition store_and_analyse ::
  "(GMLPropertyType \<Rightarrow> string option \<Rightarrow> GMLPropertyType) \<Rightarrow> nat \<Rightarrow> string \<Rightarrow>
   GMLFeatureClass \<Rightarrow> GMLFeature \<Rightarrow> GMLFeatureClass \<times> GMLFeature" where
  \<comment> \<open>the tail of \<open>SetFeatureProperty\<close>: store the value, then let the property refine its
      type unless the schema is locked. \<open>analyse\<close> is \<^verbatim>\<open>AnalysePropertyValue\<close>, not under
      src, as a function of the property's type and the stored value.\<close>
  "store_and_analyse analyse iProperty pszValue poClass poFeature =
     (let poFeature' = SetProperty iProperty pszValue poFeature;
          poClass' =
            (if \<not> IsSchemaLocked poClass \<and> iProperty < length (m_papoProperty poClass)
             then poClass\<lparr> m_papoProperty :=
                    (m_papoProperty poClass)[iProperty :=
                       (m_papoProperty poClass ! iProperty)
                         \<lparr> m_eType := analyse (m_eType (m_papoProperty poClass ! iProperty))
                                         (GetProperty_value poFeature' iProperty) \<rparr>] \<rparr>
             else poClass)
      in (poClass', poFeature'))"

definition base_field_name :: "GMLFeatureClass \<Rightarrow> string \<Rightarrow> string" where
  \<comment> \<open>the field name of a new property before any underscore is appended\<close>
  "base_field_name poClass pszElement =
     (case strrchr_tail CHR ''|'' pszElement of
        None \<Rightarrow> pszElement
      | Some t \<Rightarrow> if GetPropertyIndex poClass t \<noteq> - 1 then pszElement else t)"

definition derive_field_name :: "GMLFeatureClass \<Rightarrow> string \<Rightarrow> string" where
  \<comment> \<open>the field name \<open>SetFeatureProperty\<close> computes for a new property\<close>
  "derive_field_name poClass pszElement =
     unique_field_name poClass (base_field_name poClass pszElement)"

definition SetFeatureProperty ::
  "(string \<Rightarrow> string option) \<Rightarrow> (GMLPropertyType \<Rightarrow> string option \<Rightarrow> GMLPropertyType) \<Rightarrow>
   string \<Rightarrow> string \<Rightarrow> GMLReader \<Rightarrow> error + GMLReader" where
  \<comment> \<open>\<open>cfg\<close> is the process-wide configuration that \<^verbatim>\<open>CPLGetConfigOption\<close> reads.
      A missing state or feature is a NULL dereference; a feature whose class is no
      longer in the registry is a dangling pointer.\<close>
  "SetFeatureProperty cfg analyse pszElement pszValue r =
     (case m_poState r of
        [] \<Rightarrow> Inl NullDereference
      | st # parents \<Rightarrow>
          (case m_poFeature st of
             None \<Rightarrow> Inl NullDereference
           | Some poFeature \<Rightarrow>
               if m_poClass poFeature \<ge> length (m_papoClass r) then Inl DanglingClassPointer
               else
                 (let poClass = m_papoClass r ! m_poClass poFeature;
                      iProperty = find_src_element (m_papoProperty poClass) pszElement;
                      finish = (\<lambda>poClass1.
                        let (poClass2, poFeature2) =
                              store_and_analyse analyse iProperty pszValue poClass1 poFeature
                        in Inr (r\<lparr> m_papoClass := (m_papoClass r)[m_poClass poFeature := poClass2],
                                   m_poState := st\<lparr> m_poFeature := Some poFeature2 \<rparr> # parents \<rparr>))
                  in if int iProperty = GetPropertyCount poClass
                     then
                       if IsSchemaLocked poClass
                       then Inr (r\<lparr> cpl_log := cpl_log r @
                                   [CPLDebug ''GML''
                                      ''Encountered property missing from class schema.''] \<rparr>)
                       else
                         (let osFieldName = derive_field_name poClass pszElement;
                              poPDefn = new_GMLPropertyDefn osFieldName pszElement;
                              poPDefn =
                                (if EQUAL (CPLGetConfigOption cfg ''GML_FIELDTYPES'' [])
                                      ''ALWAYS_STRING''
                                 then poPDefn\<lparr> m_eType := GMLPT_String \<rparr>
                                 else poPDefn);
                              (rc, poClass1) = AddProperty poPDefn poClass
                          in if rc < 0 then Inr r else finish poClass1)
                     else finish poClass)))"

section \<open>Example inputs\<close>

definition example_class :: GMLFeatureClass where
  \<comment> \<open>a class \<open>Road\<close> that already has the property \<open>name\<close>\<close>
  "example_class = (new_GMLFeatureClass ''Road'')
     \<lparr> m_papoProperty :=
         [\<lparr> m_pszName = ''name'', m_pszSrcElement = ''name'', m_eType = GMLPT_String \<rparr>] \<rparr>"

definition example_reader :: "bool \<Rightarrow> GMLReader" where
  \<comment> \<open>a reader in the middle of a \<open>Road\<close> feature, the schema of \<open>Road\<close> locked or not\<close>
  "example_reader bLocked =
     (new_GMLReader True False False)
       \<lparr> m_papoClass := [example_class\<lparr> m_bSchemaLocked := bLocked \<rparr>],
         m_poState := [new_GMLReadState\<lparr> m_poFeature := Some (new_GMLFeature 0) \<rparr>,
                       new_GMLReadState] \<rparr>"

definition example_analyse :: "GMLPropertyType \<Rightarrow> string option \<Rightarrow> GMLPropertyType" where
  \<comment> \<open>an \<^verbatim>\<open>AnalysePropertyValue\<close> for the value \<open>1\<close>, as the spec has it for a valid
      integer: \<open>unknown\<close> is widened to integer and any other type is kept. No other
      value changes the type here.\<close>
  "example_analyse eType pszValue =
     (if pszValue = Some ''1'' \<and> eType = GMLPT_Untyped then GMLPT_Integer else eType)"

definition always_string_cfg :: "string \<Rightarrow> string option" where
  \<comment> \<open>a configuration in which only \<^verbatim>\<open>GML_FIELDTYPES\<close> is set\<close>
  "always_string_cfg pszKey =
     (if pszKey = ''GML_FIELDTYPES'' then Some ''always_string'' else None)"

definition member_state :: "string \<Rightarrow> GMLReader" where
  \<comment> \<open>a reader whose current path ends in the element \<open>pszLast\<close>\<close>
  "member_state pszLast =
     (new_GMLReader True False False)
       \<lparr> m_poState := [new_GMLReadState
                          \<lparr> m_papszPathComponents := [''FeatureCollection'', pszLast] \<rparr>] \<rparr>"

section \<open>LoadClasses\<close>

text \<open>
  The file system, the XML parser and \<^verbatim>\<open>GMLFeatureClass::InitializeFromXML\<close> are outside
  gmlreader.cpp; \<open>LoadClasses\<close> takes them as parameters.
\<close>

record schema_file =
  sf_bytes :: string
    \<comment> \<open>the content of the file\<close>
  sf_alloc_ok :: bool
    \<comment> \<open>\<^verbatim>\<open>VSIMalloc(nLength+1)\<close> returns a buffer\<close>
  sf_read_ok :: bool
    \<comment> \<open>\<^verbatim>\<open>VSIFReadL(pszWholeText, nLength, 1, fp)\<close> returns 1\<close>

record load_env =
  OpenSchemaFile :: "string \<Rightarrow> schema_file option"
    \<comment> \<open>\<^verbatim>\<open>VSIFOpenL(pszFile, "rb")\<close>; \<open>None\<close> is a NULL handle\<close>
  CPLParseXMLString :: "string \<Rightarrow> CPLXMLNode option"
  InitializeFromXML :: "CPLXMLNode \<Rightarrow> GMLFeatureClass option"
    \<comment> \<open>the class that a fresh \<^verbatim>\<open>GMLFeatureClass\<close> becomes; \<open>None\<close> when the call
        returns false\<close>

definition SetSchemaLocked :: "bool \<Rightarrow> GMLFeatureClass \<Rightarrow> GMLFeatureClass" where
  "SetSchemaLocked bLock poClass = poClass\<lparr> m_bSchemaLocked := bLock \<rparr>"

definition is_class_node :: "CPLXMLNode \<Rightarrow> bool" where
  "is_class_node psThis =
     (xml_eType psThis = CXT_Element \<and> EQUAL (xml_pszValue psThis) ''GMLFeatureClass'')"

fun load_children ::
  "(CPLXMLNode \<Rightarrow> GMLFeatureClass option) \<Rightarrow> CPLXMLNode list \<Rightarrow> GMLReader \<Rightarrow> bool \<times> GMLReader"
where
  \<comment> \<open>the loop over \<^verbatim>\<open>psRoot->psChild\<close>; \<open>False\<close> is the early \<^verbatim>\<open>return FALSE\<close>\<close>
  "load_children init [] r = (True, r)"
| "load_children init (psThis # rest) r =
     (if is_class_node psThis
      then (case init psThis of
              None \<Rightarrow> (False, r)
            | Some poClass \<Rightarrow>
                load_children init rest (snd (AddClass (SetSchemaLocked True poClass) r)))
      else load_children init rest r)"

definition CPLError :: "cpl_msg \<Rightarrow> GMLReader \<Rightarrow> GMLReader" where
  "CPLError msg r = r\<lparr> cpl_log := cpl_log r @ [msg] \<rparr>"

definition LoadClasses :: "load_env \<Rightarrow> string option \<Rightarrow> GMLReader \<Rightarrow> bool \<times> GMLReader" where
  "LoadClasses env pszFile r =
     (case pszFile of
        None \<Rightarrow> (False, r)
      | Some file \<Rightarrow>
          (case OpenSchemaFile env file of
             None \<Rightarrow>
               (False, CPLError (CPLError_Failure (''Failed to open file '' @ file @ ''.'')) r)
           | Some fp \<Rightarrow>
               if \<not> sf_alloc_ok fp
               then (False, CPLError (CPLError_Failure
                              (''Failed to allocate '' @ dec_text (length (sf_bytes fp))
                                 @ '' byte buffer for '' @ file @ '','' @ [CHR 0x0A]
                                 @ ''is this really a GMLFeatureClassList file?'')) r)
               else if \<not> sf_read_ok fp
               then (False, CPLError (CPLError_Failure (''Read failed on '' @ file @ ''.'')) r)
               else
                 (let pszWholeText = c_str (sf_bytes fp)
                  in if \<not> strstr_found pszWholeText ''<GMLFeatureClassList>''
                     then (False, CPLError (CPLError_Failure
                             (''File '' @ file
                                @ '' does not contain a GMLFeatureClassList tree.'')) r)
                     else
                       (case CPLParseXMLString env pszWholeText of
                          None \<Rightarrow> (False, r)
                        | Some psRoot \<Rightarrow>
                            if xml_eType psRoot \<noteq> CXT_Element
                               \<or> \<not> EQUAL (xml_pszValue psRoot) ''GMLFeatureClassList''
                            then (False, CPLError (CPLError_Failure
                                    (''File '' @ file
                                       @ '' is not a GMLFeatureClassList document.'')) r)
                            else
                              (case load_children (InitializeFromXML env)
                                      (xml_psChild psRoot) r of
                                 (False, r') \<Rightarrow> (False, r')
                               | (True, r') \<Rightarrow> (True, SetClassListLocked True r'))))))"

definition schema_tree :: "load_env \<Rightarrow> string option \<Rightarrow> CPLXMLNode option" where
  \<comment> \<open>the parse tree that \<open>LoadClasses\<close> gets to walk: the file opens, is read, holds
      the marker text and parses to a \<^verbatim>\<open>GMLFeatureClassList\<close> element\<close>
  "schema_tree env pszFile =
     (case pszFile of
        None \<Rightarrow> None
      | Some file \<Rightarrow>
          (case OpenSchemaFile env file of
             None \<Rightarrow> None
           | Some fp \<Rightarrow>
               if sf_alloc_ok fp \<and> sf_read_ok fp
                  \<and> strstr_found (c_str (sf_bytes fp)) ''<GMLFeatureClassList>''
               then (case CPLParseXMLString env (c_str (sf_bytes fp)) of
                       None \<Rightarrow> None
                     | Some psRoot \<Rightarrow>
                         if xml_eType psRoot = CXT_Element
                            \<and> EQUAL (xml_pszValue psRoot) ''GMLFeatureClassList''
                         then Some psRoot else None)
               else None))"

definition classes_before_failure ::
  "(CPLXMLNode \<Rightarrow> GMLFeatureClass option) \<Rightarrow> CPLXMLNode list \<Rightarrow> GMLFeatureClass list" where
  \<comment> \<open>the classes of the \<^verbatim>\<open>GMLFeatureClass\<close> children up to the first one that
      \<open>InitializeFromXML\<close> rejects, each with its schema locked\<close>
  "classes_before_failure init children =
     map (\<lambda>n. SetSchemaLocked True (the (init n)))
       (takeWhile (\<lambda>n. init n \<noteq> None) (filter is_class_node children))"

definition two_class_schema :: CPLXMLNode where
  \<comment> \<open>a schema with two classes, the second without a name\<close>
  "two_class_schema =
     XMLNode CXT_Element ''GMLFeatureClassList''
       [XMLNode CXT_Element ''GMLFeatureClass''
          [XMLNode CXT_Element ''Name'' [XMLNode CXT_Text ''Road'' []]],
        XMLNode CXT_Element ''GMLFeatureClass'' []]"

definition name_of_class_node :: "CPLXMLNode \<Rightarrow> GMLFeatureClass option" where
  \<comment> \<open>an \<open>InitializeFromXML\<close> that takes the class name from the first child and
      fails on a node without children\<close>
  "name_of_class_node n =
     (case xml_psChild n of
        [] \<Rightarrow> None
      | c # _ \<Rightarrow> (case xml_psChild c of
                    [] \<Rightarrow> None
                  | t # _ \<Rightarrow> Some (new_GMLFeatureClass (xml_pszValue t))))"

definition example_load_env :: "CPLXMLNode \<Rightarrow> load_env" where
  \<comment> \<open>every file opens and reads, and parses to the given tree\<close>
  "example_load_env psRoot =
     \<lparr> OpenSchemaFile = (\<lambda>file. Some \<lparr> sf_bytes = ''<GMLFeatureClassList>'',
                                         sf_alloc_ok = True, sf_read_ok = True \<rparr>),
       CPLParseXMLString = (\<lambda>text. Some psRoot),
       InitializeFromXML = name_of_class_node \<rparr>"

section \<open>Parser set-up and tear-down\<close>

function pop_all :: "GMLReader \<Rightarrow> GMLReader" where
  \<comment> \<open>\<^verbatim>\<open>while( m_poState ) PopState();\<close>\<close>
  "pop_all r = (if m_poState r \<noteq> [] then pop_all (PopState r) else r)"
  by pat_completeness auto

lemma PopState_stack: "m_poState (PopState r) = tl (m_poState r)"
  by (cases "m_poState r") (auto simp: PopState_def Let_def split: option.splits)

termination pop_all
proof (relation "measure (\<lambda>r. length (m_poState r))")
  show "wf (measure (\<lambda>r. length (m_poState r)))" by simp
next
  fix r :: GMLReader
  assume "m_poState r \<noteq> []"
  then show "(PopState r, r) \<in> measure (\<lambda>r. length (m_poState r))"
    by (cases "m_poState r") (simp_all add: PopState_stack)
qed

declare pop_all.simps [simp del]

definition CleanupParser :: "GMLReader \<Rightarrow> GMLReader" where
  "CleanupParser r =
     (if \<not> bUseExpatReader r \<and> \<not> m_poSAXReader r then r
      else if bUseExpatReader r \<and> \<not> oParser r then r
      else (pop_all r)
             \<lparr> m_poSAXReader := False, m_GMLInputSource := False,
               m_poCompleteFeature := None,
               oParser := False, nFeatureTabIndex := 0, ppoFeatureTab := [],
               m_poGMLHandler := False, m_bReadStarted := False \<rparr>)"

definition SetupParserXerces :: "sys_env \<Rightarrow> GMLReader \<Rightarrow> bool \<times> GMLReader" where
  \<comment> \<open>A failure to create the SAX reader is taken to happen in
      \<^verbatim>\<open>XMLReaderFactory::createXMLReader\<close>, before \<open>m_poSAXReader\<close> is assigned.\<close>
  "SetupParserXerces env r =
     (if \<not> m_bXercesInitialized r \<and> \<not> XercesInitOK env
      then (False, CPLError (CPLError_Warning
                      ''Exception initializing Xerces based GML reader.'') r)
      else
        (let r1 = r\<lparr> m_bXercesInitialized := True \<rparr>;
             r2 = (if m_poSAXReader r1 then CleanupParser r1 else r1)
         in if \<not> XercesCreateOK env
            then (False, CPLError (CPLError_Warning
                            ''Exception initializing Xerces based GML reader.'') r2)
            else
              (let r3 = r2\<lparr> m_poSAXReader := True, m_poGMLHandler := True \<rparr>
               in (True, if \<not> m_GMLInputSource r3 \<and> fpGML r3 \<noteq> None
                         then r3\<lparr> m_GMLInputSource := True \<rparr> else r3))))"

definition SetupParserExpat :: "GMLReader \<Rightarrow> bool \<times> GMLReader" where
  "SetupParserExpat r =
     (let r1 = (if oParser r then CleanupParser r else r)
      in (True, r1\<lparr> oParser := True, m_poGMLHandler := True \<rparr>))"

definition SetupParser :: "sys_env \<Rightarrow> GMLReader \<Rightarrow> bool \<times> GMLReader" where
  "SetupParser env r =
     (let r1 = (if fpGML r = None
                then r\<lparr> fpGML := map_option (\<lambda>cs. \<lparr> f_all = cs, f_rest = cs \<rparr>)
                                   (VSIFOpenL env (m_pszFilename r)) \<rparr>
                else r);
          r2 = r1\<lparr> fpGML := map_option (\<lambda>f. f\<lparr> f_rest := f_all f \<rparr>) (fpGML r1) \<rparr>;
          (bRet, r3) = (if bUseExpatReader r2 then SetupParserExpat r2
                        else SetupParserXerces env r2)
      in if \<not> bRet then (False, r3)
         else (True, PushState new_GMLReadState (r3\<lparr> m_bReadStarted := False \<rparr>)))"

definition ResetReading :: "GMLReader \<Rightarrow> GMLReader" where
  "ResetReading r = (CleanupParser r)\<lparr> m_pszFilteredClassName := None \<rparr>"

section \<open>NextFeature\<close>

definition unread :: "GMLReader \<Rightarrow> chunk list" where
  \<comment> \<open>what the tokenizer has not been given yet; nothing without an open file\<close>
  "unread r = (case fpGML r of None \<Rightarrow> [] | Some f \<Rightarrow> f_rest f)"

definition set_unread :: "chunk list \<Rightarrow> GMLReader \<Rightarrow> GMLReader" where
  "set_unread cs r = r\<lparr> fpGML := map_option (\<lambda>f. f\<lparr> f_rest := cs \<rparr>) (fpGML r) \<rparr>"

definition run_call :: "handler_call \<Rightarrow> GMLReader \<Rightarrow> GMLReader" where
  "run_call c r =
     (case c of
        CallPushFeature pszElement pszFID geometry \<Rightarrow>
          (let r1 = PushFeature pszElement pszFID r
           in case m_poState r1 of
                [] \<Rightarrow> r1
              | st # parents \<Rightarrow>
                  r1\<lparr> m_poState :=
                        st\<lparr> m_poFeature :=
                              map_option (\<lambda>f. f\<lparr> m_papsGeometry := geometry \<rparr>)
                                (m_poFeature st) \<rparr> # parents \<rparr>)
      | CallPopState \<Rightarrow> PopState r)"

definition run_chunk :: "chunk \<Rightarrow> chunk list \<Rightarrow> GMLReader \<Rightarrow> GMLReader" where
  \<comment> \<open>one call of the tokenizer on the chunk \<open>c\<close>, with \<open>cs\<close> left unread after it\<close>
  "run_chunk c cs r = fold run_call (ch_calls c) (set_unread cs r)"

definition xerces_catch :: "tok_failure \<Rightarrow> GMLReader \<Rightarrow> GMLReader" where
  \<comment> \<open>the two \<^verbatim>\<open>catch\<close> blocks of \<open>NextFeatureXerces\<close>\<close>
  "xerces_catch e r =
     (case e of
        XMLException_thrown msg \<Rightarrow>
          (r\<lparr> cpl_log := cpl_log r @
                 [CPLDebug ''GML''
                    (''Error during NextFeature()! Message:'' @ [CHR 0x0A] @ msg)] \<rparr>)
            \<lparr> m_bStopParsing := True \<rparr>
      | SAXException_thrown msg \<Rightarrow>
          (CPLError (CPLError_Failure msg) r)\<lparr> m_bStopParsing := True \<rparr>)"

fun xerces_loop :: "chunk list \<Rightarrow> GMLReader \<Rightarrow> tok_failure option \<times> GMLReader" where
  \<comment> \<open>\<^verbatim>\<open>while( m_poCompleteFeature == NULL && !m_bStopParsing && parseNext() ) {}\<close>
      on the unread chunks; an exception leaves the loop with \<open>Some\<close>. \<^verbatim>\<open>parseNext\<close>
      returns false when nothing is left.\<close>
  "xerces_loop [] r = (None, r)"
| "xerces_loop (c # cs) r =
     (if m_poCompleteFeature r = None \<and> \<not> m_bStopParsing r
      then (case ch_failure c of
              Some e \<Rightarrow> (Some e, run_chunk c cs r)
            | None \<Rightarrow> xerces_loop cs (run_chunk c cs r))
      else (None, r))"

definition xerces_deliver :: "GMLReader \<Rightarrow> error + (GMLFeature option \<times> GMLReader)" where
  \<comment> \<open>the loop of \<open>NextFeatureXerces\<close> and what follows it; calling \<^verbatim>\<open>parseNext\<close>
      without a SAX reader is a NULL dereference\<close>
  "xerces_deliver r =
     (if m_poCompleteFeature r = None \<and> \<not> m_bStopParsing r \<and> \<not> m_poSAXReader r
      then Inl NullDereference
      else (case xerces_loop (unread r) r of
              (Some e, r1) \<Rightarrow> Inr (None, xerces_catch e r1)
            | (None, r1) \<Rightarrow>
                Inr (m_poCompleteFeature r1, r1\<lparr> m_poCompleteFeature := None \<rparr>)))"

definition NextFeatureXerces :: "sys_env \<Rightarrow> GMLReader \<Rightarrow> error + (GMLFeature option \<times> GMLReader)" where
  "NextFeatureXerces env r =
     (if \<not> m_bReadStarted r
      then
        (let r1 = (if \<not> m_poSAXReader r then snd (SetupParser env r) else r);
             r2 = r1\<lparr> m_bReadStarted := True \<rparr>
         in if \<not> m_GMLInputSource r2 then Inr (None, r2)
            else if \<not> m_poSAXReader r2 then Inl NullDereference
            else
              (case unread r2 of
                 [] \<Rightarrow> Inr (None, r2)
               | c # cs \<Rightarrow>
                   (case ch_failure c of
                      Some e \<Rightarrow> Inr (None, xerces_catch e (run_chunk c cs r2))
                    | None \<Rightarrow> xerces_deliver (run_chunk c cs r2))))
      else xerces_deliver r)"

definition failure_text :: "tok_failure \<Rightarrow> string" where
  "failure_text e =
     (case e of XMLException_thrown msg \<Rightarrow> msg | SAXException_thrown msg \<Rightarrow> msg)"

definition expat_chunk :: "chunk \<Rightarrow> chunk list \<Rightarrow> GMLReader \<Rightarrow> GMLReader" where
  \<comment> \<open>the body of the \<^verbatim>\<open>do ... while\<close> of \<open>NextFeatureExpat\<close>: one buffer through
      \<^verbatim>\<open>XML_Parse\<close>, then the two updates of \<open>m_bStopParsing\<close>\<close>
  "expat_chunk c cs r =
     (let r1 = run_chunk c cs r;
          r2 = (case ch_failure c of
                  Some e \<Rightarrow>
                    (CPLError (CPLError_Failure
                       (''XML parsing of GML file failed : '' @ failure_text e
                          @ '' at line '' @ dec_text (ch_line c)
                          @ '', column '' @ dec_text (ch_column c))) r1)
                      \<lparr> m_bStopParsing := True \<rparr>
                | None \<Rightarrow> r1)
      in if \<not> m_bStopParsing r2
         then r2\<lparr> m_bStopParsing := ch_handler_stopped c \<rparr> else r2)"

fun expat_loop :: "chunk list \<Rightarrow> GMLReader \<Rightarrow> GMLReader" where
  \<comment> \<open>the \<^verbatim>\<open>do ... while\<close> of \<open>NextFeatureExpat\<close> on the unread chunks. It is entered
      only with something unread, and goes round again only while \<^verbatim>\<open>!nDone\<close>, which is
      \<^verbatim>\<open>VSIFEofL\<close> after the read.\<close>
  "expat_loop [] r = r"
| "expat_loop (c # cs) r =
     (let r3 = expat_chunk c cs r;
          nDone = (cs = [])
      in if \<not> nDone \<and> \<not> m_bStopParsing r3 \<and> length (ppoFeatureTab r3) = 0
         then expat_loop cs r3 else r3)"

definition NextFeatureExpat :: "sys_env \<Rightarrow> GMLReader \<Rightarrow> error + (GMLFeature option \<times> GMLReader)" where
  \<comment> \<open>\<^verbatim>\<open>VSIFEofL\<close> holds when nothing is unread. \<^verbatim>\<open>XML_Parse\<close> without a parser, or
      without the handler it reports to, is a NULL dereference.\<close>
  "NextFeatureExpat env r =
     (let r1 = (if \<not> m_bReadStarted r
                then (if \<not> oParser r then snd (SetupParser env r) else r)
                       \<lparr> m_bReadStarted := True \<rparr>
                else r)
      in if fpGML r1 = None \<or> m_bStopParsing r1 then Inr (None, r1)
         else if nFeatureTabIndex r1 < length (ppoFeatureTab r1)
         then Inr (Some (ppoFeatureTab r1 ! nFeatureTabIndex r1),
                   r1\<lparr> nFeatureTabIndex := nFeatureTabIndex r1 + 1 \<rparr>)
         else if unread r1 = [] then Inr (None, r1)
         else if \<not> oParser r1 \<or> \<not> m_poGMLHandler r1 then Inl NullDereference
         else
           (let r2 = expat_loop (unread r1) (r1\<lparr> ppoFeatureTab := [], nFeatureTabIndex := 0 \<rparr>)
            in if length (ppoFeatureTab r2) \<noteq> 0
               then Inr (Some (ppoFeatureTab r2 ! nFeatureTabIndex r2),
                         r2\<lparr> nFeatureTabIndex := nFeatureTabIndex r2 + 1 \<rparr>)
               else Inr (None, r2)))"

definition NextFeature :: "sys_env \<Rightarrow> GMLReader \<Rightarrow> error + (GMLFeature option \<times> GMLReader)" where
  "NextFeature env r =
     (if bUseExpatReader r then NextFeatureExpat env r else NextFeatureXerces env r)"

section \<open>Example documents\<close>

definition example_sys_env :: "chunk list \<Rightarrow> sys_env" where
  "example_sys_env doc =
     \<lparr> VSIFOpenL = (\<lambda>name. Some doc), XercesInitOK = True, XercesCreateOK = True \<rparr>"

definition fresh_reader :: "bool \<Rightarrow> GMLReader" where
  \<comment> \<open>a new reader for the file \<open>roads.gml\<close>, on Expat or on Xerces\<close>
  "fresh_reader bExpat = SetSourceFile ''roads.gml'' (new_GMLReader bExpat False False)"

section \<open>PrescanForSchema\<close>

text \<open>
  The geometry builder and the spatial reference library are outside gmlreader.cpp;
  \<open>PrescanForSchema\<close> takes them as parameters. \<open>'srs\<close> is what an
  \<^verbatim>\<open>OGRSpatialReference\<close> object holds. Coordinates are reals: the prescan only compares
  and moves them.
\<close>

record OGRGeometry =
  g_type :: OGRwkbGeometryType
    \<comment> \<open>\<^verbatim>\<open>getGeometryType()\<close>\<close>
  g_empty :: bool
    \<comment> \<open>\<^verbatim>\<open>IsEmpty()\<close>\<close>
  g_envelope :: "real \<times> real \<times> real \<times> real"
    \<comment> \<open>\<^verbatim>\<open>getEnvelope\<close>: MinX, MaxX, MinY, MaxY\<close>

record 'srs ogr_env =
  BuildOGRGeometryFromList :: "CPLXMLNode list \<Rightarrow> bool \<Rightarrow> bool \<Rightarrow> OGRGeometry option"
    \<comment> \<open>\<^verbatim>\<open>GML_BuildOGRGeometryFromList(list, TRUE, bInvertAxisOrderIfLatLong, NULL,
        bConsiderEPSGAsURN)\<close>\<close>
  ExtractSrsNameFromGeometry :: "CPLXMLNode list \<Rightarrow> bool \<Rightarrow> string option"
  OGRMergeGeometryTypes :: "OGRwkbGeometryType \<Rightarrow> OGRwkbGeometryType \<Rightarrow> OGRwkbGeometryType"
  IsSRSLatLongOrder :: "string option \<Rightarrow> bool"
  SetFromUserInput :: "string option \<Rightarrow> 'srs option"
    \<comment> \<open>the object after a call that returns \<^verbatim>\<open>OGRERR_NONE\<close>\<close>
  HasGEOGCS :: "'srs \<Rightarrow> bool"
    \<comment> \<open>\<^verbatim>\<open>GetAttrNode("GEOGCS") != NULL\<close>\<close>
  StripAXIS :: "'srs \<Rightarrow> 'srs"
    \<comment> \<open>the object after \<^verbatim>\<open>StripNodes("AXIS")\<close> on its GEOGCS node\<close>
  exportToWkt :: "'srs \<Rightarrow> string option"
    \<comment> \<open>the text after a call that returns \<^verbatim>\<open>OGRERR_NONE\<close>\<close>

definition MergeSRSName :: "string option \<Rightarrow> GMLFeatureClass \<Rightarrow> GMLFeatureClass" where
  \<comment> \<open>Modelled from the spec: \<^verbatim>\<open>GMLFeatureClass::MergeSRSName\<close>, not under src, "which
      remembers the first distinct value and marks ambiguity if a second differs".\<close>
  "MergeSRSName pszSRSName poClass =
     (if \<not> m_bSRSNameConsistent poClass then poClass
      else (case m_pszSRSName poClass of
              None \<Rightarrow> poClass\<lparr> m_pszSRSName := pszSRSName \<rparr>
            | Some cur \<Rightarrow>
                if pszSRSName = Some cur then poClass
                else poClass\<lparr> m_bSRSNameConsistent := False \<rparr>))"

definition MIN_dbl :: "real \<Rightarrow> real \<Rightarrow> real" where
  "MIN_dbl a b = (if a < b then a else b)"

definition MAX_dbl :: "real \<Rightarrow> real \<Rightarrow> real" where
  "MAX_dbl a b = (if a > b then a else b)"

definition merge_extents :: "OGRGeometry \<Rightarrow> GMLFeatureClass \<Rightarrow> GMLFeatureClass" where
  \<comment> \<open>the "merge extents" block\<close>
  "merge_extents poGeometry poClass =
     (if \<not> g_empty poGeometry
      then (case g_envelope poGeometry of
              (MinX, MaxX, MinY, MaxY) \<Rightarrow>
                (case m_extents poClass of
                   Some (dfXMin, dfXMax, dfYMin, dfYMax) \<Rightarrow>
                     poClass\<lparr> m_extents := Some (MIN_dbl dfXMin MinX, MAX_dbl dfXMax MaxX,
                                                  MIN_dbl dfYMin MinY, MAX_dbl dfYMax MaxY) \<rparr>
                 | None \<Rightarrow> poClass\<lparr> m_extents := Some (MinX, MaxX, MinY, MaxY) \<rparr>))
      else poClass)"

definition count_feature :: "GMLFeatureClass \<Rightarrow> GMLFeatureClass" where
  "count_feature poClass =
     (if m_nFeatureCount poClass = - 1 then poClass\<lparr> m_nFeatureCount := 1 \<rparr>
      else poClass\<lparr> m_nFeatureCount := m_nFeatureCount poClass + 1 \<rparr>)"

definition merge_geometry ::
  "'srs ogr_env \<Rightarrow> string option \<Rightarrow> OGRGeometry \<Rightarrow> GMLFeatureClass \<Rightarrow> GMLFeatureClass" where
  \<comment> \<open>what the loop body does to the class once a geometry has been built\<close>
  "merge_geometry ogr pszSRSName poGeometry poClass =
     (let eGType = m_nGeometryType poClass;
          poClass1 = MergeSRSName pszSRSName poClass;
          eGType = (if m_nFeatureCount poClass1 = 1 \<and> eGType = wkbUnknown
                    then wkbNone else eGType);
          poClass2 = poClass1\<lparr> m_nGeometryType :=
                       OGRMergeGeometryTypes ogr eGType (g_type poGeometry) \<rparr>
      in merge_extents poGeometry poClass2)"

definition prescan_feature ::
  "'srs ogr_env \<Rightarrow> bool \<Rightarrow> GMLFeature \<Rightarrow> GMLReader \<Rightarrow> error + GMLReader" where
  \<comment> \<open>the body of the \<open>NextFeature\<close> loop; a feature whose class is not in the
      registry is a dangling pointer\<close>
  "prescan_feature ogr bGetExtents poFeature r =
     (if m_poClass poFeature \<ge> length (m_papoClass r) then Inl DanglingClassPointer
      else
        (let poClass = count_feature (m_papoClass r ! m_poClass poFeature)
         in if bGetExtents
            then
              (case BuildOGRGeometryFromList ogr (m_papsGeometry poFeature)
                      (m_bInvertAxisOrderIfLatLong r) (m_bConsiderEPSGAsURN r) of
                 None \<Rightarrow>
                   Inr (r\<lparr> m_papoClass := (m_papoClass r)[m_poClass poFeature := poClass] \<rparr>)
               | Some poGeometry \<Rightarrow>
                   (let pszSRSName = ExtractSrsNameFromGeometry ogr (m_papsGeometry poFeature)
                                       (m_bConsiderEPSGAsURN r);
                        bCan = (if pszSRSName \<noteq> None then False
                                else m_bCanUseGlobalSRSName r)
                    in Inr (r\<lparr> m_papoClass := (m_papoClass r)[m_poClass poFeature :=
                                    merge_geometry ogr pszSRSName poGeometry poClass],
                               m_bCanUseGlobalSRSName := bCan \<rparr>)))
            else Inr (r\<lparr> m_papoClass := (m_papoClass r)[m_poClass poFeature := poClass] \<rparr>)))"

function prescan_loop ::
  "sys_env \<Rightarrow> 'srs ogr_env \<Rightarrow> bool \<Rightarrow> GMLReader \<Rightarrow> error + GMLReader" where
  \<comment> \<open>\<^verbatim>\<open>while( (poFeature = NextFeature()) != NULL ) { ... }\<close>\<close>
  "prescan_loop env ogr bGetExtents r =
     (case NextFeature env r of
        Inl e \<Rightarrow> Inl e
      | Inr (None, r1) \<Rightarrow> Inr r1
      | Inr (Some poFeature, r1) \<Rightarrow>
          (case prescan_feature ogr bGetExtents poFeature r1 of
             Inl e \<Rightarrow> Inl e
           | Inr r2 \<Rightarrow> prescan_loop env ogr bGetExtents r2))"
  by pat_completeness auto

definition not_started :: "GMLReader \<Rightarrow> nat" where
  "not_started r = (if m_bReadStarted r then 0 else 1)"

definition pending :: "GMLReader \<Rightarrow> nat" where
  \<comment> \<open>completed features waiting to be handed out\<close>
  "pending r =
     (if bUseExpatReader r then length (ppoFeatureTab r) - nFeatureTabIndex r
      else if m_poCompleteFeature r = None then 0 else 1)"

definition closer_to_end :: "(GMLReader \<times> GMLReader) set" where
  "closer_to_end = measures [not_started, \<lambda>r. length (unread r), pending]"

lemma PopState_frame:
  "m_bReadStarted (PopState r) = m_bReadStarted r"
  "fpGML (PopState r) = fpGML r"
  "bUseExpatReader (PopState r) = bUseExpatReader r"
  by (cases "m_poState r"; simp add: PopState_def Let_def split: option.splits)+

lemma PushFeature_frame:
  "m_bReadStarted (PushFeature e fid r) = m_bReadStarted r"
  "fpGML (PushFeature e fid r) = fpGML r"
  "bUseExpatReader (PushFeature e fid r) = bUseExpatReader r"
  by (simp_all add: PushFeature_def PushState_def AddClass_def Let_def)

lemma run_call_frame:
  "m_bReadStarted (run_call c r) = m_bReadStarted r"
  "fpGML (run_call c r) = fpGML r"
  "bUseExpatReader (run_call c r) = bUseExpatReader r"
proof -
  show "m_bReadStarted (run_call c r) = m_bReadStarted r"
  proof (cases c)
    case (CallPushFeature e fid g)
    then show ?thesis
      by (cases "m_poState (PushFeature e fid r)")
         (simp_all add: run_call_def Let_def PushFeature_frame)
  next
    case CallPopState
    then show ?thesis by (simp add: run_call_def PopState_frame)
  qed
  show "fpGML (run_call c r) = fpGML r"
  proof (cases c)
    case (CallPushFeature e fid g)
    then show ?thesis
      by (cases "m_poState (PushFeature e fid r)")
         (simp_all add: run_call_def Let_def PushFeature_frame)
  next
    case CallPopState
    then show ?thesis by (simp add: run_call_def PopState_frame)
  qed
  show "bUseExpatReader (run_call c r) = bUseExpatReader r"
  proof (cases c)
    case (CallPushFeature e fid g)
    then show ?thesis
      by (cases "m_poState (PushFeature e fid r)")
         (simp_all add: run_call_def Let_def PushFeature_frame)
  next
    case CallPopState
    then show ?thesis by (simp add: run_call_def PopState_frame)
  qed
qed

lemma fold_run_call_frame:
  "m_bReadStarted (fold run_call cs r) = m_bReadStarted r
   \<and> fpGML (fold run_call cs r) = fpGML r
   \<and> bUseExpatReader (fold run_call cs r) = bUseExpatReader r"
  by (induction cs arbitrary: r) (simp_all add: run_call_frame)

lemma run_chunk_frame:
  "m_bReadStarted (run_chunk c cs r) = m_bReadStarted r"
  "bUseExpatReader (run_chunk c cs r) = bUseExpatReader r"
  "length (unread (run_chunk c cs r)) \<le> length cs"
  by (simp_all add: run_chunk_def fold_run_call_frame set_unread_def unread_def
      split: option.splits)

lemma expat_chunk_frame:
  "m_bReadStarted (expat_chunk c cs r) = m_bReadStarted r"
  "bUseExpatReader (expat_chunk c cs r) = bUseExpatReader r"
  "length (unread (expat_chunk c cs r)) \<le> length cs"
  using run_chunk_frame [of c cs r]
  by (cases "ch_failure c"; simp add: expat_chunk_def Let_def CPLError_def unread_def)+

lemma expat_loop_frame:
  "m_bReadStarted (expat_loop cs r) = m_bReadStarted r
   \<and> bUseExpatReader (expat_loop cs r) = bUseExpatReader r
   \<and> (cs \<noteq> [] \<longrightarrow> length (unread (expat_loop cs r)) < length cs)"
proof (induction cs arbitrary: r)
  case Nil
  then show ?case by simp
next
  case (Cons c cs)
  let ?r3 = "expat_chunk c cs r"
  note r3 = expat_chunk_frame [of c cs r]
  show ?case
  proof (cases "cs \<noteq> [] \<and> \<not> m_bStopParsing ?r3 \<and> length (ppoFeatureTab ?r3) = 0")
    case True
    then have "expat_loop (c # cs) r = expat_loop cs ?r3" by (simp add: Let_def)
    with Cons.IH [of ?r3] r3 True show ?thesis by auto
  next
    case False
    then have "expat_loop (c # cs) r = ?r3" by (auto simp: Let_def)
    with r3 show ?thesis by auto
  qed
qed

lemma xerces_loop_frame:
  "xerces_loop cs r = (x, r1) \<Longrightarrow>
   m_bReadStarted r1 = m_bReadStarted r \<and> bUseExpatReader r1 = bUseExpatReader r
   \<and> (r1 = r \<or> length (unread r1) < length cs)"
proof (induction cs arbitrary: r)
  case Nil
  then show ?case by simp
next
  case (Cons c cs)
  show ?case
  proof (cases "m_poCompleteFeature r = None \<and> \<not> m_bStopParsing r")
    case False
    with Cons.prems show ?thesis by auto
  next
    case True
    note go = this
    show ?thesis
    proof (cases "ch_failure c")
      case (Some e)
      with go Cons.prems have "r1 = run_chunk c cs r" by simp
      then show ?thesis using run_chunk_frame [of c cs r] by auto
    next
      case None
      with go Cons.prems have "xerces_loop cs (run_chunk c cs r) = (x, r1)" by simp
      from Cons.IH [OF this] show ?thesis using run_chunk_frame [of c cs r] by auto
    qed
  qed
qed

lemma xerces_catch_frame:
  "m_bReadStarted (xerces_catch e r) = m_bReadStarted r"
  by (cases e) (simp_all add: xerces_catch_def CPLError_def)

lemma xerces_deliver_closer:
  assumes "xerces_deliver r = Inr (Some f, r')" and "\<not> bUseExpatReader r"
  shows "m_bReadStarted r' = m_bReadStarted r
       \<and> (length (unread r') < length (unread r)
          \<or> (length (unread r') = length (unread r) \<and> pending r' < pending r))"
proof -
  from assms(1) obtain r1 where loop: "xerces_loop (unread r) r = (None, r1)"
    and f: "m_poCompleteFeature r1 = Some f" and r': "r' = r1\<lparr> m_poCompleteFeature := None \<rparr>"
    by (auto simp: xerces_deliver_def split: if_splits prod.splits option.splits)
  from xerces_loop_frame [OF loop] have fr: "m_bReadStarted r1 = m_bReadStarted r"
    "bUseExpatReader r1 = bUseExpatReader r" "r1 = r \<or> length (unread r1) < length (unread r)"
    by simp_all
  have u: "unread r' = unread r1" using r' by (simp add: unread_def)
  show ?thesis
  proof (cases "r1 = r")
    case True
    with f r' assms(2) u show ?thesis by (simp add: pending_def)
  next
    case False
    with fr u r' show ?thesis by simp
  qed
qed

lemma NextFeatureXerces_closer:
  assumes "NextFeatureXerces env r = Inr (Some f, r')" and "\<not> bUseExpatReader r"
  shows "(r', r) \<in> closer_to_end"
proof (cases "m_bReadStarted r")
  case True
  with assms(1) have "xerces_deliver r = Inr (Some f, r')"
    by (simp add: NextFeatureXerces_def)
  from xerces_deliver_closer [OF this assms(2)] True show ?thesis
    by (auto simp: closer_to_end_def not_started_def)
next
  case False
  let ?r1 = "if \<not> m_poSAXReader r then snd (SetupParser env r) else r"
  let ?r2 = "?r1\<lparr> m_bReadStarted := True \<rparr>"
  from assms(1) False obtain c cs where "unread ?r2 = c # cs"
    and d: "xerces_deliver (run_chunk c cs ?r2) = Inr (Some f, r')"
    by (auto simp: NextFeatureXerces_def Let_def split: if_splits list.splits option.splits)
  from d obtain r1 where loop: "xerces_loop (unread (run_chunk c cs ?r2)) (run_chunk c cs ?r2)
                                  = (None, r1)"
    and r': "r' = r1\<lparr> m_poCompleteFeature := None \<rparr>"
    by (auto simp: xerces_deliver_def split: if_splits prod.splits option.splits)
  from xerces_loop_frame [OF loop] have "m_bReadStarted r1"
    by (simp add: run_chunk_frame)
  with r' False show ?thesis by (simp add: closer_to_end_def not_started_def)
qed

lemma NextFeatureExpat_closer:
  assumes "NextFeatureExpat env r = Inr (Some f, r')" and "bUseExpatReader r"
  shows "(r', r) \<in> closer_to_end"
proof -
  let ?r1 = "if \<not> m_bReadStarted r
             then (if \<not> oParser r then snd (SetupParser env r) else r)\<lparr> m_bReadStarted := True \<rparr>
             else r"
  let ?r2 = "expat_loop (unread ?r1) (?r1\<lparr> ppoFeatureTab := [], nFeatureTabIndex := 0 \<rparr>)"
  have st: "m_bReadStarted ?r1" by simp
  from assms(1) have cases:
    "(nFeatureTabIndex ?r1 < length (ppoFeatureTab ?r1)
        \<and> r' = ?r1\<lparr> nFeatureTabIndex := nFeatureTabIndex ?r1 + 1 \<rparr>)
     \<or> (unread ?r1 \<noteq> [] \<and> r' = ?r2\<lparr> nFeatureTabIndex := nFeatureTabIndex ?r2 + 1 \<rparr>)"
    unfolding NextFeatureExpat_def Let_def by (auto split: if_splits)
  from expat_loop_frame [of "unread ?r1" "?r1\<lparr> ppoFeatureTab := [], nFeatureTabIndex := 0 \<rparr>"]
  have fr: "m_bReadStarted ?r2" "unread ?r1 \<noteq> [] \<longrightarrow> length (unread ?r2) < length (unread ?r1)"
    using st by simp_all
  show ?thesis
  proof (cases "m_bReadStarted r")
    case False
    from cases fr have "m_bReadStarted r'" by auto
    with False show ?thesis by (simp add: closer_to_end_def not_started_def)
  next
    case True
    then have r1: "?r1 = r" by simp
    from cases show ?thesis
    proof
      assume a: "nFeatureTabIndex ?r1 < length (ppoFeatureTab ?r1)
                 \<and> r' = ?r1\<lparr> nFeatureTabIndex := nFeatureTabIndex ?r1 + 1 \<rparr>"
      with r1 have "r' = r\<lparr> nFeatureTabIndex := nFeatureTabIndex r + 1 \<rparr>"
        "nFeatureTabIndex r < length (ppoFeatureTab r)" by simp_all
      with assms(2) show ?thesis
        by (simp add: closer_to_end_def not_started_def unread_def pending_def)
    next
      assume b: "unread ?r1 \<noteq> [] \<and> r' = ?r2\<lparr> nFeatureTabIndex := nFeatureTabIndex ?r2 + 1 \<rparr>"
      then have "m_bReadStarted r'" "unread r' = unread ?r2" "length (unread ?r2) < length (unread r)"
        using fr r1 by (simp_all add: unread_def)
      with True show ?thesis by (simp add: closer_to_end_def not_started_def)
    qed
  qed
qed

lemma NextFeature_closer:
  "NextFeature env r = Inr (Some f, r') \<Longrightarrow> (r', r) \<in> closer_to_end"
  using NextFeatureExpat_closer NextFeatureXerces_closer
  by (cases "bUseExpatReader r") (simp_all add: NextFeature_def)

lemma prescan_feature_frame:
  assumes "prescan_feature ogr b f r = Inr r'"
  shows "not_started r' = not_started r \<and> unread r' = unread r \<and> pending r' = pending r"
proof -
  let ?g = "BuildOGRGeometryFromList ogr (m_papsGeometry f)
              (m_bInvertAxisOrderIfLatLong r) (m_bConsiderEPSGAsURN r)"
  from assms have inb: "\<not> length (m_papoClass r) \<le> m_poClass f"
    by (simp add: prescan_feature_def split: if_splits)
  show ?thesis
  proof (cases "b \<and> ?g \<noteq> None")
    case False
    with assms inb have "\<exists>cs. r' = r\<lparr> m_papoClass := cs \<rparr>"
      by (cases b; cases ?g) (auto simp: prescan_feature_def Let_def)
    then show ?thesis by (auto simp: not_started_def unread_def pending_def)
  next
    case True
    then obtain g where "b" "?g = Some g" by auto
    with assms inb have "\<exists>cs can. r' = r\<lparr> m_papoClass := cs, m_bCanUseGlobalSRSName := can \<rparr>"
      by (simp add: prescan_feature_def Let_def del: not_None_eq) blast
    then show ?thesis by (auto simp: not_started_def unread_def pending_def)
  qed
qed

lemma prescan_step_closer:
  assumes "NextFeature env r = Inr x" and "(p, r1) = x" and "p = Some f"
    and "prescan_feature ogr bGetExtents f r1 = Inr r2"
  shows "((env, ogr, bGetExtents, r2), (env, ogr, bGetExtents, r))
           \<in> inv_image closer_to_end (\<lambda>(env, ogr, b, r). r)"
proof -
  from assms(1,2,3) have "NextFeature env r = Inr (Some f, r1)" by simp
  then have "(r1, r) \<in> closer_to_end"
    by (rule NextFeature_closer)
  moreover have "not_started r2 = not_started r1 \<and> unread r2 = unread r1
                 \<and> pending r2 = pending r1"
    using assms(4) by (rule prescan_feature_frame)
  ultimately have "(r2, r) \<in> closer_to_end"
    by (simp add: closer_to_end_def)
  then show ?thesis by simp
qed

termination prescan_loop
proof (relation "inv_image closer_to_end (\<lambda>(env, ogr, b, r). r)")
  show "wf (inv_image closer_to_end (\<lambda>(env, ogr, b, r). r))"
    by (simp add: closer_to_end_def)
qed (rule prescan_step_closer; assumption)

declare prescan_loop.simps [simp del]

definition fix_class :: "'srs ogr_env \<Rightarrow> GMLReader \<Rightarrow> GMLFeatureClass \<Rightarrow> GMLFeatureClass" where
  \<comment> \<open>the body of the loop over the classes that follows the feature loop; the reader
      is read only\<close>
  "fix_class ogr r poClass =
     (let pszSRSName = (if m_bCanUseGlobalSRSName r then m_pszGlobalSRSName r
                        else m_pszSRSName poClass)
      in if m_bInvertAxisOrderIfLatLong r \<and> IsSRSLatLongOrder ogr pszSRSName
         then (case SetFromUserInput ogr pszSRSName of
                 None \<Rightarrow> poClass
               | Some oSRS \<Rightarrow>
                   if \<not> HasGEOGCS ogr oSRS then poClass
                   else
                     (let poClass1 =
                            (case exportToWkt ogr (StripAXIS ogr oSRS) of
                               Some pszWKT \<Rightarrow> poClass\<lparr> m_pszSRSName := Some pszWKT \<rparr>
                             | None \<Rightarrow> poClass)
                      in if m_bCanUseGlobalSRSName r
                         then (case m_extents poClass1 of
                                 Some (dfXMin, dfXMax, dfYMin, dfYMax) \<Rightarrow>
                                   poClass1\<lparr> m_extents :=
                                     Some (dfYMin, dfYMax, dfXMin, dfXMax) \<rparr>
                               | None \<Rightarrow> poClass1)
                         else poClass1))
         else poClass)"

definition fix_classes :: "'srs ogr_env \<Rightarrow> GMLReader \<Rightarrow> GMLReader" where
  \<comment> \<open>the loop over the classes that follows the feature loop\<close>
  "fix_classes ogr r = r\<lparr> m_papoClass := map (fix_class ogr r) (m_papoClass r) \<rparr>"

definition PrescanForSchema ::
  "sys_env \<Rightarrow> 'srs ogr_env \<Rightarrow> bool \<Rightarrow> GMLReader \<Rightarrow> error + (bool \<times> GMLReader)" where
  "PrescanForSchema env ogr bGetExtents r =
     (if m_pszFilename r = None then Inr (False, r)
      else
        (let r1 = ClearClasses (SetClassListLocked False r);
             (bOK, r2) = SetupParser env r1
         in if \<not> bOK then Inr (False, r2)
            else
              (case prescan_loop env ogr bGetExtents (r2\<lparr> m_bCanUseGlobalSRSName := True \<rparr>) of
                 Inl e \<Rightarrow> Inl e
               | Inr r3 \<Rightarrow>
                   (let r5 = CleanupParser (fix_classes ogr r3)
                    in Inr (GetClassCount r5 > 0, r5)))))"

definition swap_extents :: "real \<times> real \<times> real \<times> real \<Rightarrow> real \<times> real \<times> real \<times> real" where
  \<comment> \<open>(xmin, xmax, ymin, ymax) to (ymin, ymax, xmin, xmax)\<close>
  "swap_extents e = (case e of (dfXMin, dfXMax, dfYMin, dfYMax) \<Rightarrow> (dfYMin, dfYMax, dfXMin, dfXMax))"

definition effective_srs :: "GMLReader \<Rightarrow> GMLFeatureClass \<Rightarrow> string option" where
  \<comment> \<open>the SRS name the class loop works with: the global one when it may be used\<close>
  "effective_srs r poClass =
     (if m_bCanUseGlobalSRSName r then m_pszGlobalSRSName r else m_pszSRSName poClass)"

definition example_ogr_env :: "string list ogr_env" where
  \<comment> \<open>A stand-in for the OGR side. A geometry is built from a non-empty element list:
      a point with envelope (2, 3, 48, 49). The SRS name is that of an \<open>srsName\<close>
      attribute on the first element, in URN form on request. Only the URN of EPSG:4326
      is in lat/long order. An SRS object is the list of its node names.\<close>
  "example_ogr_env =
     \<lparr> BuildOGRGeometryFromList = (\<lambda>l bInvert bURN.
          case l of
            [] \<Rightarrow> None
          | n # _ \<Rightarrow> Some \<lparr> g_type = wkbPoint, g_empty = False,
                              g_envelope = (2, 3, 48, 49) \<rparr>),
       ExtractSrsNameFromGeometry = (\<lambda>l bURN.
          case l of
            XMLNode t v (XMLNode CXT_Attribute a [XMLNode CXT_Text s []] # _) # _ \<Rightarrow>
              if a = ''srsName''
              then Some (if bURN \<and> take 5 s = ''EPSG:''
                         then ''urn:ogc:def:crs:EPSG::'' @ drop 5 s else s)
              else None
          | _ \<Rightarrow> None),
       OGRMergeGeometryTypes = (\<lambda>eMain eExtra.
          if eMain = wkbUnknown \<or> eExtra = wkbUnknown then wkbUnknown
          else if eMain = wkbNone then eExtra
          else if eExtra = wkbNone then eMain
          else if eMain = eExtra then eMain else wkbUnknown),
       IsSRSLatLongOrder = (\<lambda>s. s = Some ''urn:ogc:def:crs:EPSG::4326''),
       SetFromUserInput = (\<lambda>s. case s of
            None \<Rightarrow> None
          | Some n \<Rightarrow> Some [''GEOGCS'', ''DATUM'', ''AXIS'', ''AXIS'']),
       HasGEOGCS = (\<lambda>srs. List.member srs ''GEOGCS''),
       StripAXIS = filter (\<lambda>n. n \<noteq> ''AXIS''),
       exportToWkt = (\<lambda>srs. Some (concat srs)) \<rparr>"

definition one_feature_document :: "CPLXMLNode list \<Rightarrow> chunk list" where
  \<comment> \<open>the prolog, then one \<open>Road\<close> feature with the given geometry elements\<close>
  "one_feature_document geometry =
     [\<lparr> ch_calls = [], ch_failure = None, ch_line = 0, ch_column = 0,
        ch_handler_stopped = False \<rparr>,
      \<lparr> ch_calls = [CallPushFeature ''Road'' (Some ''r1'') geometry, CallPopState],
        ch_failure = None, ch_line = 0, ch_column = 0,
        ch_handler_stopped = False \<rparr>]"

definition point_with_srs :: "CPLXMLNode list" where
  \<comment> \<open>a point that names its SRS\<close>
  "point_with_srs =
     [XMLNode CXT_Element ''Point''
        [XMLNode CXT_Attribute ''srsName'' [XMLNode CXT_Text ''EPSG:4326'' []]]]"

definition point_without_srs :: "CPLXMLNode list" where
  "point_without_srs = [XMLNode CXT_Element ''Point'' []]"

section \<open>Calls from outside and the pull tokenizer\<close>

datatype reader_call = Call_NextFeature | Call_ResetReading

fun run_calls ::
  "sys_env \<Rightarrow> reader_call list \<Rightarrow> GMLReader \<Rightarrow> error + (GMLFeature option list \<times> GMLReader)" where
  \<comment> \<open>calls of \<open>NextFeature\<close> and \<open>ResetReading\<close> in a row, with what each \<open>NextFeature\<close>
      returned\<close>
  "run_calls env [] r = Inr ([], r)"
| "run_calls env (Call_NextFeature # calls) r =
     (case NextFeature env r of
        Inl e \<Rightarrow> Inl e
      | Inr (f, r1) \<Rightarrow>
          (case run_calls env calls r1 of
             Inl e \<Rightarrow> Inl e
           | Inr (fs, r2) \<Rightarrow> Inr (f # fs, r2)))"
| "run_calls env (Call_ResetReading # calls) r = run_calls env calls (ResetReading r)"

definition ends_no_feature :: "chunk \<Rightarrow> bool" where
  \<comment> \<open>no feature element ends during the tokenizer call\<close>
  "ends_no_feature c = (CallPopState \<notin> set (ch_calls c))"

definition quiet_start :: "chunk list \<Rightarrow> bool" where
  "quiet_start doc = (case doc of [] \<Rightarrow> True | c # _ \<Rightarrow> ends_no_feature c)"

definition pull_yields :: "chunk list \<Rightarrow> bool" where
  "pull_yields doc = list_all (\<lambda>c. ch_failure c = None \<or> ends_no_feature c) doc"

definition pull_contract :: "chunk list \<Rightarrow> bool" where
  \<comment> \<open>Modelled from the spec: what the pull tokenizer, which is not under src, does with
      a document. \<^verbatim>\<open>parseFirst\<close> starts the scan and ends no feature. A \<^verbatim>\<open>parseNext\<close>
      returns to the loop of \<open>NextFeatureXerces\<close> as soon as a feature has ended (the
      spec: the loop yields as soon as the feature ends), so a call that is left by an
      exception has ended none.\<close>
  "pull_contract doc = (quiet_start doc \<and> pull_yields doc)"

definition reader_ok :: "sys_env \<Rightarrow> GMLReader \<Rightarrow> bool" where
  \<comment> \<open>what holds of a reader between two calls from outside. On Xerces: no completed
      feature is held back, the input source exists only with the SAX reader, a reader set
      up and not started stands where \<^verbatim>\<open>parseFirst\<close> reads, and the file behind the
      reader is one the pull tokenizer treats as above.\<close>
  "reader_ok env r =
     (bUseExpatReader r
      \<or> (m_poCompleteFeature r = None
         \<and> (m_GMLInputSource r \<longrightarrow> m_poSAXReader r)
         \<and> pull_yields (unread r)
         \<and> (\<not> m_bReadStarted r \<and> m_poSAXReader r \<longrightarrow> quiet_start (unread r))
         \<and> (case fpGML r of None \<Rightarrow> True | Some f \<Rightarrow> pull_contract (f_all f))
         \<and> (case VSIFOpenL env (m_pszFilename r) of
               None \<Rightarrow> True
             | Some doc \<Rightarrow> pull_contract doc)))"

definition ctrl ::
  "GMLReader \<Rightarrow> bool \<times> bool \<times> bool \<times> bool \<times> bool \<times> string option \<times> chunk list option" where
  \<comment> \<open>the members that steer \<open>NextFeature\<close> and that the handler does not touch\<close>
  "ctrl r = (bUseExpatReader r, m_poSAXReader r, m_GMLInputSource r, m_bReadStarted r,
             m_bStopParsing r, m_pszFilename r, map_option f_all (fpGML r))"

definition interrupted_document :: "chunk list" where
  \<comment> \<open>the prolog, a \<open>Road\<close> feature that starts in one tokenizer call and ends in the
      next, and a second \<open>Road\<close> feature during which the tokenizer fails\<close>
  "interrupted_document =
     [\<lparr> ch_calls = [], ch_failure = None, ch_line = 0, ch_column = 0,
        ch_handler_stopped = False \<rparr>,
      \<lparr> ch_calls = [CallPushFeature ''Road'' (Some ''r1'') []], ch_failure = None,
        ch_line = 0, ch_column = 0, ch_handler_stopped = False \<rparr>,
      \<lparr> ch_calls = [CallPopState], ch_failure = None,
        ch_line = 0, ch_column = 0, ch_handler_stopped = False \<rparr>,
      \<lparr> ch_calls = [CallPushFeature ''Road'' (Some ''r2'') []],
        ch_failure = Some (SAXException_thrown ''mismatched tag''),
        ch_line = 9, ch_column = 4, ch_handler_stopped = False \<rparr>]"

definition after_failure :: "bool \<Rightarrow> GMLReader" where
  \<comment> \<open>the reader after two calls of \<open>NextFeature\<close> on the interrupted document: the
      first returns the \<open>Road\<close> \<open>r1\<close>, the tokenizer fails during the second\<close>
  "after_failure bExpat =
     (case run_calls (example_sys_env interrupted_document)
             [Call_NextFeature, Call_NextFeature] (fresh_reader bExpat) of
        Inr (fs, r) \<Rightarrow> r
      | Inl e \<Rightarrow> fresh_reader bExpat)"

section \<open>Properties of the registry and of the global SRS name\<close>

lemma EQUAL_refl: "EQUAL a a"
  by (simp add: EQUAL_def)

lemma EQUAL_left_cong: "EQUAL a b \<Longrightarrow> EQUAL a x = EQUAL b x"
  by (simp add: EQUAL_def)

lemma EQUAL_right_cong: "EQUAL a b \<Longrightarrow> EQUAL x a = EQUAL x b"
  by (simp add: EQUAL_def)

lemma register_all_classes: "m_papoClass (register_all cs r) = m_papoClass r @ cs"
  unfolding register_all_def
  by (induction cs arbitrary: r) (auto simp: AddClass_def Let_def)

text \<open>
  C9. \<open>GetClass\<close> by index answers for every integer: after any classes \<open>cs\<close> have been
  added to a reader, in that order, an index below zero or from the class count on gives
  NULL, an index of the reader's earlier classes gives what it gave before, and the index
  of the \<open>k\<close>-th added class gives that class.
\<close>

theorem GetClass_index_total:
  "GetClass (register_all cs r) i =
     (if i < 0 \<or> GetClassCount r + int (length cs) \<le> i then None
      else if i < GetClassCount r then GetClass r i
      else Some (cs ! nat (i - GetClassCount r)))
   \<and> GetClassCount (register_all cs r) = GetClassCount r + int (length cs)
   \<and> (GetClass r i = None) = (i < 0 \<or> GetClassCount r \<le> i)"
  by (auto simp: GetClass_def GetClassCount_def register_all_classes nth_append
      nat_diff_distrib' nat_less_iff)

lemma take_eq_prefix: "(take (length xs) ys = xs) = prefix xs ys"
proof
  assume "take (length xs) ys = xs"
  then show "prefix xs ys" by (metis take_is_prefix)
next
  assume "prefix xs ys"
  then show "take (length xs) ys = xs" by (auto simp: prefix_def)
qed

lemma strncmp_EPSG: "strncmp_eq s ''EPSG:'' 5 = prefix ''EPSG:'' s"
proof -
  have "length ''EPSG:'' = 5" "take 5 ''EPSG:'' = ''EPSG:''" by simp_all
  then show ?thesis
    using take_eq_prefix [of "''EPSG:''" s] unfolding strncmp_eq_def by metis
qed

text \<open>
  C6. \<open>SetGlobalSRSName\<close> is one-shot. With a global SRS name stored, or with a NULL
  argument, the reader is left as it is. With none stored, the argument is stored: as
  \<open>urn:ogc:def:crs:EPSG::\<close> followed by what comes after \<open>EPSG:\<close> when it begins with
  \<open>EPSG:\<close> and \<open>m_bConsiderEPSGAsURN\<close> is set, verbatim otherwise. A call that follows a
  call with a name changes nothing, and calling twice with the same argument is calling
  once.
\<close>

theorem SetGlobalSRSName_one_shot:
  "SetGlobalSRSName p r =
     (if m_pszGlobalSRSName r = None
      then (case p of
              None \<Rightarrow> r
            | Some s \<Rightarrow>
                r\<lparr> m_pszGlobalSRSName :=
                     Some (if prefix ''EPSG:'' s \<and> m_bConsiderEPSGAsURN r
                           then ''urn:ogc:def:crs:EPSG::'' @ drop 5 s else s) \<rparr>)
      else r)
   \<and> SetGlobalSRSName q (SetGlobalSRSName (Some s') r) = SetGlobalSRSName (Some s') r
   \<and> SetGlobalSRSName p (SetGlobalSRSName p r) = SetGlobalSRSName p r"
proof (intro conjI)
  show "SetGlobalSRSName p r =
     (if m_pszGlobalSRSName r = None
      then (case p of
              None \<Rightarrow> r
            | Some s \<Rightarrow>
                r\<lparr> m_pszGlobalSRSName :=
                     Some (if prefix ''EPSG:'' s \<and> m_bConsiderEPSGAsURN r
                           then ''urn:ogc:def:crs:EPSG::'' @ drop 5 s else s) \<rparr>)
      else r)"
    by (simp add: SetGlobalSRSName_def strncmp_EPSG split: option.splits)
  show "SetGlobalSRSName q (SetGlobalSRSName (Some s') r) = SetGlobalSRSName (Some s') r"
    by (simp add: SetGlobalSRSName_def split: option.splits)
  show "SetGlobalSRSName p (SetGlobalSRSName p r) = SetGlobalSRSName p r"
    by (simp add: SetGlobalSRSName_def split: option.splits)
qed

section \<open>PushFeature and letter case\<close>

lemma find_element_class_le: "find_element_class cs e \<le> length cs"
  by (induction cs) auto

lemma find_element_class_append:
  "find_element_class (cs @ ds) e =
     (if find_element_class cs e < length cs then find_element_class cs e
      else length cs + find_element_class ds e)"
  by (induction cs) auto

lemma find_element_class_cong:
  "EQUAL a b \<Longrightarrow> find_element_class cs a = find_element_class cs b"
  by (induction cs) (auto simp: EQUAL_left_cong)

lemma find_element_class_hit:
  "find_element_class cs e < length cs \<Longrightarrow>
   EQUAL e (m_pszElementName (cs ! find_element_class cs e))"
  by (induction cs) auto

lemma find_class_by_name_cong:
  "EQUAL a b \<Longrightarrow> find_class_by_name cs a = find_class_by_name cs b"
  by (induction cs) (auto simp: EQUAL_right_cong)

lemma PushFeature_classes:
  "m_papoClass (PushFeature e fid r) =
     (if find_element_class (m_papoClass r) e = length (m_papoClass r)
      then m_papoClass r @ [new_GMLFeatureClass e] else m_papoClass r)"
  by (simp add: PushFeature_def Let_def PushState_def AddClass_def GetClassCount_def
      split: option.splits)

lemma PushFeature_current:
  "\<exists>f. current_feature (PushFeature e fid r) = Some f
       \<and> m_poClass f = find_element_class (m_papoClass r) e \<and> m_pszFID f = fid"
  by (cases fid)
     (simp_all add: PushFeature_def Let_def PushState_def current_feature_def GetState_def
        new_GMLReadState_def new_GMLFeature_def)

lemma find_after_PushFeature:
  "find_element_class (m_papoClass (PushFeature e fid r)) e
     = find_element_class (m_papoClass r) e
   \<and> find_element_class (m_papoClass r) e < length (m_papoClass (PushFeature e fid r))"
  using find_element_class_le [of "m_papoClass r" e]
  by (auto simp: PushFeature_classes find_element_class_append new_GMLFeatureClass_def
      EQUAL_refl)

lemma find_element_class_found:
  "(find_element_class cs e < length cs) = (\<exists>c \<in> set cs. EQUAL e (m_pszElementName c))"
  by (induction cs) auto

lemma find_element_class_first:
  "j < find_element_class cs e \<Longrightarrow> \<not> EQUAL e (m_pszElementName (cs ! j))"
proof (induction cs arbitrary: j)
  case Nil
  then show ?case by simp
next
  case (Cons c cs)
  then show ?case by (cases j) (auto split: if_splits)
qed

lemma PushFeature_class_index:
  "map_option m_poClass (current_feature (PushFeature e fid r))
     = Some (find_element_class (m_papoClass r) e)"
  using PushFeature_current [of e fid r] by auto

lemma find_class_by_name_find:
  "find_class_by_name cs n = List.find (\<lambda>c. EQUAL (m_pszClassName c) n) cs"
  by (induction cs) auto

text \<open>
  C10. \<open>PushFeature\<close> looks the class up by element name under \<open>EQUAL\<close>, which ignores
  letter case, in the whole registry, and \<open>GetClass\<close> by name does the same on class
  names. For every reader: a class is added exactly when no registered class has an element
  name equal to the pushed name under \<open>EQUAL\<close>, and the feature points at the first class
  whose element name is. So when \<open>a\<close> and \<open>b\<close> differ in letter case only and a feature
  has been pushed for \<open>a\<close>, a feature pushed for \<open>b\<close> at any later time, whatever
  classes \<open>ds\<close> have been appended to the registry in between, adds no class and points at
  the class that the feature for \<open>a\<close> points at; and a registry without two classes of
  the same element name up to letter case stays so. \<open>GetClass\<close> by name returns the
  first class whose name equals the argument under \<open>EQUAL\<close>, hence the same class for
  \<open>n\<close> and \<open>n'\<close> that differ in letter case only, and no class only when no class
  name matches.
\<close>

theorem PushFeature_case_insensitive:
  "m_papoClass (PushFeature e fid r) =
     (if \<exists>c \<in> set (m_papoClass r). EQUAL e (m_pszElementName c) then m_papoClass r
      else m_papoClass r @ [new_GMLFeatureClass e])
   \<and> (\<exists>f. current_feature (PushFeature e fid r) = Some f
          \<and> m_poClass f < length (m_papoClass (PushFeature e fid r))
          \<and> EQUAL e (m_pszElementName (m_papoClass (PushFeature e fid r) ! m_poClass f))
          \<and> (\<forall>j < m_poClass f.
                \<not> EQUAL e (m_pszElementName (m_papoClass (PushFeature e fid r) ! j))))
   \<and> (EQUAL a b \<and> m_papoClass r2 = m_papoClass (PushFeature a fa r) @ ds \<longrightarrow>
        m_papoClass (PushFeature b fb r2) = m_papoClass r2
        \<and> map_option m_poClass (current_feature (PushFeature b fb r2))
            = map_option m_poClass (current_feature (PushFeature a fa r))
        \<and> map_option m_poClass (current_feature (PushFeature b fb r2)) \<noteq> None)
   \<and> (no_duplicate_class (m_papoClass r) \<longrightarrow>
        no_duplicate_class (m_papoClass (PushFeature e fid r)))
   \<and> GetClass_by_name r n = List.find (\<lambda>c. EQUAL (m_pszClassName c) n) (m_papoClass r)
   \<and> ((GetClass_by_name r n = None)
        = (\<forall>c \<in> set (m_papoClass r). \<not> EQUAL (m_pszClassName c) n))
   \<and> (EQUAL n n' \<longrightarrow> GetClass_by_name r n = GetClass_by_name r n')"
proof -
  let ?cs = "m_papoClass r"
  let ?i = "find_element_class ?cs e"
  have le: "?i \<le> length ?cs" by (rule find_element_class_le)
  have classes: "m_papoClass (PushFeature e fid r) =
     (if \<exists>c \<in> set ?cs. EQUAL e (m_pszElementName c) then ?cs
      else ?cs @ [new_GMLFeatureClass e])"
    using le find_element_class_found [of ?cs e] by (auto simp: PushFeature_classes)
  have after: "find_element_class (m_papoClass (PushFeature e fid r)) e = ?i"
    and lt: "?i < length (m_papoClass (PushFeature e fid r))"
    using find_after_PushFeature [of e fid r] by simp_all
  obtain f where f: "current_feature (PushFeature e fid r) = Some f" "m_poClass f = ?i"
    using PushFeature_current [of e fid r] by blast
  have hit: "EQUAL e (m_pszElementName (m_papoClass (PushFeature e fid r) ! ?i))"
    using find_element_class_hit [of "m_papoClass (PushFeature e fid r)" e] after lt by simp
  have first: "\<forall>j < ?i. \<not> EQUAL e (m_pszElementName (m_papoClass (PushFeature e fid r) ! j))"
    using find_element_class_first [of _ "m_papoClass (PushFeature e fid r)" e] after by simp
  have current: "\<exists>f. current_feature (PushFeature e fid r) = Some f
          \<and> m_poClass f < length (m_papoClass (PushFeature e fid r))
          \<and> EQUAL e (m_pszElementName (m_papoClass (PushFeature e fid r) ! m_poClass f))
          \<and> (\<forall>j < m_poClass f.
                \<not> EQUAL e (m_pszElementName (m_papoClass (PushFeature e fid r) ! j)))"
    using f lt hit first by simp
  have later: "EQUAL a b \<and> m_papoClass r2 = m_papoClass (PushFeature a fa r) @ ds \<longrightarrow>
        m_papoClass (PushFeature b fb r2) = m_papoClass r2
        \<and> map_option m_poClass (current_feature (PushFeature b fb r2))
            = map_option m_poClass (current_feature (PushFeature a fa r))
        \<and> map_option m_poClass (current_feature (PushFeature b fb r2)) \<noteq> None"
  proof (intro impI, elim conjE)
    assume ab: "EQUAL a b" and r2: "m_papoClass r2 = m_papoClass (PushFeature a fa r) @ ds"
    let ?r1 = "PushFeature a fa r"
    let ?k = "find_element_class (m_papoClass r) a"
    have ka: "find_element_class (m_papoClass ?r1) a = ?k"
      and klt: "?k < length (m_papoClass ?r1)"
      using find_after_PushFeature [of a fa r] by simp_all
    have kb: "find_element_class (m_papoClass ?r1) b = ?k"
      using find_element_class_cong [OF ab, of "m_papoClass ?r1"] ka by simp
    have k2: "find_element_class (m_papoClass r2) b = ?k"
      using kb klt by (simp add: r2 find_element_class_append)
    have lt2: "?k < length (m_papoClass r2)" using klt by (simp add: r2)
    have same: "m_papoClass (PushFeature b fb r2) = m_papoClass r2"
      using k2 lt2 by (simp add: PushFeature_classes)
    show "m_papoClass (PushFeature b fb r2) = m_papoClass r2
        \<and> map_option m_poClass (current_feature (PushFeature b fb r2))
            = map_option m_poClass (current_feature (PushFeature a fa r))
        \<and> map_option m_poClass (current_feature (PushFeature b fb r2)) \<noteq> None"
      using same k2 by (simp add: PushFeature_class_index)
  qed
  have nodup: "no_duplicate_class ?cs \<longrightarrow> no_duplicate_class (m_papoClass (PushFeature e fid r))"
    unfolding classes
    by (auto simp: no_duplicate_class_def new_GMLFeatureClass_def EQUAL_def)
  have byname: "GetClass_by_name r n = List.find (\<lambda>c. EQUAL (m_pszClassName c) n) ?cs"
    by (simp add: GetClass_by_name_def find_class_by_name_find)
  have none: "(GetClass_by_name r n = None) = (\<forall>c \<in> set ?cs. \<not> EQUAL (m_pszClassName c) n)"
    unfolding byname by (auto simp: find_None_iff)
  have cong: "EQUAL n n' \<longrightarrow> GetClass_by_name r n = GetClass_by_name r n'"
    using find_class_by_name_cong [of n n' ?cs] by (simp add: GetClass_by_name_def)
  show ?thesis using classes current later nodup byname none cong by blast
qed

theorem PushFeature_case_insensitive_witness:
  "EQUAL ''Road'' ''ROAD''
   \<and> no_duplicate_class (m_papoClass (new_GMLReader True False False))
   \<and> m_papoClass (PushFeature ''River'' None
        (PushFeature ''Road'' (Some ''r1'') (new_GMLReader True False False)))
       = m_papoClass (PushFeature ''Road'' (Some ''r1'') (new_GMLReader True False False))
           @ [new_GMLFeatureClass ''River'']
   \<and> m_papoClass (PushFeature ''ROAD'' None (PushFeature ''River'' None
        (PushFeature ''Road'' (Some ''r1'') (new_GMLReader True False False))))
       = [new_GMLFeatureClass ''Road'', new_GMLFeatureClass ''River'']
   \<and> map_option m_poClass (current_feature
        (PushFeature ''ROAD'' None (PushFeature ''River'' None
          (PushFeature ''Road'' (Some ''r1'') (new_GMLReader True False False)))))
       = Some 0
   \<and> no_duplicate_class (m_papoClass
        (PushFeature ''Road'' (Some ''r1'') (new_GMLReader True False False)))
   \<and> GetClass_by_name (PushFeature ''River'' None
        (PushFeature ''Road'' (Some ''r1'') (new_GMLReader True False False))) ''ROAD''
       = Some (new_GMLFeatureClass ''Road'')"
proof -
  let ?r0 = "new_GMLReader True False False"
  let ?r1 = "PushFeature ''Road'' (Some ''r1'') ?r0"
  let ?r2 = "PushFeature ''River'' None ?r1"
  have e: "EQUAL ''Road'' ''ROAD''" by (simp add: EQUAL_def c_tolower_def)
  have ne: "\<not> EQUAL ''River'' ''Road''" by (simp add: EQUAL_def c_tolower_def)
  have d0: "no_duplicate_class (m_papoClass ?r0)"
    by (simp add: no_duplicate_class_def new_GMLReader_def)
  have c1: "m_papoClass ?r1 = [new_GMLFeatureClass ''Road'']"
    by (simp add: PushFeature_classes new_GMLReader_def)
  have c2: "m_papoClass ?r2 = m_papoClass ?r1 @ [new_GMLFeatureClass ''River'']"
    unfolding PushFeature_classes [of "''River''" None ?r1] c1
    using ne by (simp add: new_GMLFeatureClass_def)
  have i1: "map_option m_poClass (current_feature ?r1) = Some 0"
    by (simp add: PushFeature_class_index new_GMLReader_def)
  have n1: "List.find (\<lambda>c. EQUAL (m_pszClassName c) ''ROAD'') (m_papoClass ?r2)
              = Some (new_GMLFeatureClass ''Road'')"
    using e by (simp add: c2 c1 new_GMLFeatureClass_def EQUAL_def)
  show ?thesis
    using PushFeature_case_insensitive [where e = "''Road''" and fid = "Some ''r1''"
        and r = ?r0 and a = "''Road''" and b = "''ROAD''" and fa = "Some ''r1''"
        and fb = None and ?r2.0 = ?r2 and ds = "[new_GMLFeatureClass ''River'']"
        and n = "''ROAD''" and n' = "''road''"]
      PushFeature_case_insensitive [where e = "''Road''" and fid = "Some ''r1''"
        and r = ?r2 and a = "''Road''" and b = "''ROAD''" and fa = "Some ''r1''"
        and fb = None and ?r2.0 = ?r2 and ds = "[]"
        and n = "''ROAD''" and n' = "''road''"]
      e d0 c1 c2 i1 n1 by simp
qed

section \<open>Properties of SetFeatureProperty\<close>

lemma find_src_element_le: "find_src_element ps e \<le> length ps"
  by (induction ps) auto

lemma find_src_element_none:
  "(find_src_element ps e = length ps) = (e \<notin> set (map m_pszSrcElement ps))"
  using find_src_element_le [of _ e]
  by (induction ps) (auto simp: Suc_le_eq dest: le_neq_implies_less)

lemma find_field_name_None:
  "(find_field_name ps n = None) = (n \<notin> set (map m_pszName ps))"
  by (induction ps) auto

lemma GetProperty_by_name_None:
  "(GetProperty_by_name c n = None) = (n \<notin> set (map m_pszName (m_papoProperty c)))"
  using find_field_name_None [of "m_papoProperty c" n]
  by (auto simp: GetProperty_by_name_def split: option.splits)

lemma GetPropertyIndex_none:
  "(GetPropertyIndex c n = - 1) = (n \<notin> set (map m_pszName (m_papoProperty c)))"
  using find_field_name_None [of "m_papoProperty c" n]
  by (auto simp: GetPropertyIndex_def split: option.splits)

lemma unique_field_name_spec:
  "\<exists>k. unique_field_name c n = n @ replicate k CHR ''_''
       \<and> n @ replicate k CHR ''_'' \<notin> set (map m_pszName (m_papoProperty c))
       \<and> (\<forall>j<k. n @ replicate j CHR ''_'' \<in> set (map m_pszName (m_papoProperty c)))"
proof (induction c n rule: unique_field_name.induct)
  case (1 c n)
  show ?case
  proof (cases "GetProperty_by_name c n = None")
    case True
    then have "unique_field_name c n = n @ replicate 0 CHR ''_''"
      and "n @ replicate 0 CHR ''_'' \<notin> set (map m_pszName (m_papoProperty c))"
      using unique_field_name.simps [of c n] by (simp_all add: GetProperty_by_name_None)
    then show ?thesis by (metis not_less_zero)
  next
    case False
    from 1 [OF False] obtain k where k:
      "unique_field_name c (n @ ''_'') = (n @ ''_'') @ replicate k CHR ''_''"
      "(n @ ''_'') @ replicate k CHR ''_'' \<notin> set (map m_pszName (m_papoProperty c))"
      "\<forall>j<k. (n @ ''_'') @ replicate j CHR ''_'' \<in> set (map m_pszName (m_papoProperty c))"
      by blast
    have shift: "\<And>j. (n @ ''_'') @ replicate j CHR ''_'' = n @ replicate (Suc j) CHR ''_''"
      by simp
    have taken: "n \<in> set (map m_pszName (m_papoProperty c))"
      using False by (simp add: GetProperty_by_name_None)
    have "unique_field_name c n = n @ replicate (Suc k) CHR ''_''"
      using False k(1) shift unique_field_name.simps [of c n] by simp
    moreover have "n @ replicate (Suc k) CHR ''_'' \<notin> set (map m_pszName (m_papoProperty c))"
      using k(2) shift by simp
    moreover have "\<forall>j<Suc k. n @ replicate j CHR ''_'' \<in> set (map m_pszName (m_papoProperty c))"
    proof (intro allI impI)
      fix j assume "j < Suc k"
      show "n @ replicate j CHR ''_'' \<in> set (map m_pszName (m_papoProperty c))"
      proof (cases j)
        case 0
        then show ?thesis using taken by simp
      next
        case (Suc i)
        with \<open>j < Suc k\<close> have "i < k" by simp
        with k(3) shift Suc show ?thesis by metis
      qed
    qed
    ultimately show ?thesis by blast
  qed
qed

lemma strrchr_tail_None: "(strrchr_tail c s = None) = (c \<notin> set s)"
  by (induction s) (auto split: option.splits)

lemma strrchr_tail_Some:
  "strrchr_tail c s = Some t \<Longrightarrow> \<exists>pre. s = pre @ c # t \<and> c \<notin> set t"
proof (induction s arbitrary: t)
  case Nil
  then show ?case by simp
next
  case (Cons x xs)
  show ?case
  proof (cases "strrchr_tail c xs")
    case None
    with Cons.prems have "x = c" "t = xs" by (auto split: if_splits)
    moreover from None have "c \<notin> set xs" by (simp add: strrchr_tail_None)
    ultimately show ?thesis by (metis append_Nil)
  next
    case (Some u)
    with Cons.prems have "u = t" by simp
    with Cons.IH Some obtain pre where "xs = pre @ c # t" "c \<notin> set t" by blast
    then show ?thesis by (metis append_Cons)
  qed
qed

lemma strrchr_tail_unique:
  "s = pre @ c # t \<Longrightarrow> c \<notin> set t \<Longrightarrow> strrchr_tail c s = Some t"
proof (induction pre arbitrary: s)
  case Nil
  then show ?case by (simp add: strrchr_tail_None [THEN iffD2])
next
  case (Cons x pre)
  then show ?case by simp
qed

lemma derive_field_name_base:
  "derive_field_name c e = unique_field_name c (base_field_name c e)"
  by (simp add: derive_field_name_def)

text \<open>
  C7. When no property of the current feature's class has \<open>elem_path\<close> as its source
  element and the schema of the class is locked, \<open>SetFeatureProperty\<close> returns normally
  and the only thing it does is to send one debug message; the reader, with its classes,
  their property lists and the feature with its values, is otherwise what it was.
\<close>

theorem SetFeatureProperty_locked_drop:
  assumes "m_poState r = st # parents"
    and "m_poFeature st = Some poFeature"
    and "m_poClass poFeature < length (m_papoClass r)"
    and "elem_path \<notin> set (map m_pszSrcElement (m_papoProperty (m_papoClass r ! m_poClass poFeature)))"
    and "m_bSchemaLocked (m_papoClass r ! m_poClass poFeature)"
  shows "SetFeatureProperty cfg analyse elem_path v r =
           Inr (r\<lparr> cpl_log := cpl_log r @
                  [CPLDebug ''GML'' ''Encountered property missing from class schema.''] \<rparr>)"
  using assms
  by (simp add: SetFeatureProperty_def Let_def find_src_element_none GetPropertyCount_def
      IsSchemaLocked_def)

theorem SetFeatureProperty_locked_drop_witness:
  "SetFeatureProperty (\<lambda>k. None) (\<lambda>t v. t) ''colour'' ''red'' (example_reader True) =
           Inr ((example_reader True)\<lparr> cpl_log := cpl_log (example_reader True) @
                  [CPLDebug ''GML'' ''Encountered property missing from class schema.''] \<rparr>)
   \<and> m_papoClass (example_reader True) = [example_class\<lparr> m_bSchemaLocked := True \<rparr>]"
proof -
  have "SetFeatureProperty (\<lambda>k. None) (\<lambda>t v. t) ''colour'' ''red'' (example_reader True) =
           Inr ((example_reader True)\<lparr> cpl_log := cpl_log (example_reader True) @
                  [CPLDebug ''GML'' ''Encountered property missing from class schema.''] \<rparr>)"
    by (rule SetFeatureProperty_locked_drop
          [where st = "new_GMLReadState\<lparr> m_poFeature := Some (new_GMLFeature 0) \<rparr>"
             and parents = "[new_GMLReadState]" and poFeature = "new_GMLFeature 0"])
       (simp_all add: example_reader_def example_class_def new_GMLReader_def
          new_GMLReadState_def new_GMLFeature_def new_GMLFeatureClass_def)
  then show ?thesis by (simp add: example_reader_def)
qed

lemma AddProperty_fresh:
  "m_pszName p \<notin> set (map m_pszName (m_papoProperty c)) \<Longrightarrow>
   AddProperty p c = (int (length (m_papoProperty c)),
                      c\<lparr> m_papoProperty := m_papoProperty c @ [p] \<rparr>)"
  using GetProperty_by_name_None [of c "m_pszName p"]
  by (simp add: AddProperty_def GetPropertyCount_def)

text \<open>
  C3. When the schema of the current feature's class is unlocked and no property has
  \<open>elem_path\<close> as its source element, \<open>SetFeatureProperty\<close> appends one property to the
  class. Its source element is \<open>elem_path\<close>. Its field name is a base name followed by
  \<open>k\<close> underscores, where the base name is \<open>elem_path\<close> when that has no \<open>|\<close>, and
  otherwise what follows the last \<open>|\<close>, unless that is a field name of the class
  already, in which case it is \<open>elem_path\<close> again; \<open>k\<close> is the least number for which
  the name is not yet a field name of the class. Field names that were pairwise distinct
  stay so. The type of the property is what \<^verbatim>\<open>AnalysePropertyValue\<close> makes, with the
  value, of the type it is inserted with, and that is string exactly when
  \<^verbatim>\<open>GML_FIELDTYPES\<close> equals \<^verbatim>\<open>ALWAYS_STRING\<close> under \<open>EQUAL\<close>; otherwise it is the type of a
  fresh definition, which is untyped and not string. The value is stored in the feature at the new
  index.
\<close>

theorem SetFeatureProperty_new_property:
  assumes st: "m_poState r = st # parents"
    and f: "m_poFeature st = Some poFeature"
    and ci: "m_poClass poFeature < length (m_papoClass r)"
    and c: "c = m_papoClass r ! m_poClass poFeature"
    and nosrc: "elem_path \<notin> set (map m_pszSrcElement (m_papoProperty c))"
    and unlocked: "\<not> m_bSchemaLocked c"
    and dist: "distinct (map m_pszName (m_papoProperty c))"
  shows "\<exists>r' k. SetFeatureProperty cfg analyse elem_path v r = Inr r'
           \<and> m_papoClass r' = (m_papoClass r)[m_poClass poFeature :=
                 c\<lparr> m_papoProperty := m_papoProperty c @
                      [\<lparr> m_pszName = base_field_name c elem_path @ replicate k CHR ''_'',
                         m_pszSrcElement = elem_path,
                         m_eType = analyse
                           (if EQUAL (CPLGetConfigOption cfg ''GML_FIELDTYPES'' [])
                                 ''ALWAYS_STRING''
                            then GMLPT_String else GMLPT_Untyped)
                           (Some v) \<rparr>] \<rparr>]
           \<and> base_field_name c elem_path @ replicate k CHR ''_''
                \<notin> set (map m_pszName (m_papoProperty c))
           \<and> (\<forall>j<k. base_field_name c elem_path @ replicate j CHR ''_''
                \<in> set (map m_pszName (m_papoProperty c)))
           \<and> (CHR ''|'' \<notin> set elem_path \<longrightarrow> base_field_name c elem_path = elem_path)
           \<and> (\<forall>pre t. elem_path = pre @ CHR ''|'' # t \<and> CHR ''|'' \<notin> set t \<longrightarrow>
                 base_field_name c elem_path =
                   (if t \<in> set (map m_pszName (m_papoProperty c)) then elem_path else t))
           \<and> distinct (map m_pszName (m_papoProperty (m_papoClass r' ! m_poClass poFeature)))
           \<and> (\<exists>f'. current_feature r' = Some f'
                 \<and> GetProperty_value f' (length (m_papoProperty c)) = Some v)"
proof -
  let ?names = "set (map m_pszName (m_papoProperty c))"
  let ?n = "length (m_papoProperty c)"
  obtain k where k:
    "unique_field_name c (base_field_name c elem_path)
       = base_field_name c elem_path @ replicate k CHR ''_''"
    "base_field_name c elem_path @ replicate k CHR ''_'' \<notin> ?names"
    "\<forall>j<k. base_field_name c elem_path @ replicate j CHR ''_'' \<in> ?names"
    using unique_field_name_spec [of c "base_field_name c elem_path"] by blast
  let ?name = "base_field_name c elem_path @ replicate k CHR ''_''"
  let ?t = "if EQUAL (CPLGetConfigOption cfg ''GML_FIELDTYPES'' []) ''ALWAYS_STRING''
            then GMLPT_String else GMLPT_Untyped"
  let ?p = "\<lparr> m_pszName = ?name, m_pszSrcElement = elem_path, m_eType = ?t \<rparr>"
  let ?p' = "\<lparr> m_pszName = ?name, m_pszSrcElement = elem_path,
               m_eType = analyse ?t (Some v) \<rparr>"
  let ?f' = "SetProperty ?n v poFeature"
  have idx: "find_src_element (m_papoProperty c) elem_path = ?n"
    using nosrc by (simp add: find_src_element_none)
  have defn: "(if EQUAL (CPLGetConfigOption cfg ''GML_FIELDTYPES'' []) ''ALWAYS_STRING''
               then (new_GMLPropertyDefn ?name elem_path)\<lparr> m_eType := GMLPT_String \<rparr>
               else new_GMLPropertyDefn ?name elem_path) = ?p"
    by (simp add: new_GMLPropertyDefn_def)
  have add: "AddProperty ?p c = (int ?n, c\<lparr> m_papoProperty := m_papoProperty c @ [?p] \<rparr>)"
    using k(2) AddProperty_fresh [of ?p c] by simp
  have val: "GetProperty_value ?f' ?n = Some v"
    by (simp add: GetProperty_value_def SetProperty_def Let_def)
  have store: "store_and_analyse analyse ?n v (c\<lparr> m_papoProperty := m_papoProperty c @ [?p] \<rparr>)
                 poFeature
               = (c\<lparr> m_papoProperty := m_papoProperty c @ [?p'] \<rparr>, ?f')"
    using unlocked val by (simp add: store_and_analyse_def Let_def IsSchemaLocked_def)
  let ?r' = "r\<lparr> m_papoClass := (m_papoClass r)[m_poClass poFeature :=
                     c\<lparr> m_papoProperty := m_papoProperty c @ [?p'] \<rparr>],
                 m_poState := st\<lparr> m_poFeature := Some ?f' \<rparr> # parents \<rparr>"
  have run: "SetFeatureProperty cfg analyse elem_path v r = Inr ?r'"
    using st f ci c [symmetric] unlocked idx
    by (simp add: SetFeatureProperty_def Let_def GetPropertyCount_def IsSchemaLocked_def
        derive_field_name_base k(1) defn add store)
  have base1: "CHR ''|'' \<notin> set elem_path \<longrightarrow> base_field_name c elem_path = elem_path"
    by (simp add: base_field_name_def strrchr_tail_None [THEN iffD2])
  have base2: "\<forall>pre t. elem_path = pre @ CHR ''|'' # t \<and> CHR ''|'' \<notin> set t \<longrightarrow>
                 base_field_name c elem_path = (if t \<in> ?names then elem_path else t)"
  proof (intro allI impI)
    fix pre t assume "elem_path = pre @ CHR ''|'' # t \<and> CHR ''|'' \<notin> set t"
    then have "strrchr_tail CHR ''|'' elem_path = Some t"
      using strrchr_tail_unique by blast
    then show "base_field_name c elem_path = (if t \<in> ?names then elem_path else t)"
      using GetPropertyIndex_none [of c t] by (auto simp: base_field_name_def)
  qed
  have dist': "distinct (map m_pszName (m_papoProperty (m_papoClass ?r' ! m_poClass poFeature)))"
    using dist k(2) ci by simp
  have cur: "current_feature ?r' = Some ?f'"
    by (simp add: current_feature_def GetState_def)
  have cls: "m_papoClass ?r' = (m_papoClass r)[m_poClass poFeature :=
                     c\<lparr> m_papoProperty := m_papoProperty c @ [?p'] \<rparr>]"
    by simp
  show ?thesis
    using run cls k(2,3) base1 base2 dist' cur val
    by (intro exI [of _ ?r'] exI [of _ k] conjI exI [of _ ?f']) assumption+
qed

theorem SetFeatureProperty_new_property_witness:
  "EQUAL (CPLGetConfigOption always_string_cfg ''GML_FIELDTYPES'' []) ''ALWAYS_STRING''
   \<and> (\<exists>r'. SetFeatureProperty always_string_cfg example_analyse ''foo|name'' ''1''
             (example_reader False) = Inr r'
      \<and> m_papoProperty (m_papoClass r' ! 0) =
          [\<lparr> m_pszName = ''name'', m_pszSrcElement = ''name'', m_eType = GMLPT_String \<rparr>,
           \<lparr> m_pszName = ''foo|name'', m_pszSrcElement = ''foo|name'', m_eType = GMLPT_String \<rparr>]
      \<and> distinct (map m_pszName (m_papoProperty (m_papoClass r' ! 0))))"
proof -
  let ?c = "example_class\<lparr> m_bSchemaLocked := False \<rparr>"
  have props: "m_papoProperty ?c =
      [\<lparr> m_pszName = ''name'', m_pszSrcElement = ''name'', m_eType = GMLPT_String \<rparr>]"
    by (simp add: example_class_def)
  have base: "base_field_name ?c ''foo|name'' = ''foo|name''"
    by (simp add: base_field_name_def GetPropertyIndex_def props)
  have forced:
    "EQUAL (CPLGetConfigOption always_string_cfg ''GML_FIELDTYPES'' []) ''ALWAYS_STRING''"
    by (simp add: CPLGetConfigOption_def always_string_cfg_def EQUAL_def c_tolower_def)
  obtain r' k where run:
      "SetFeatureProperty always_string_cfg example_analyse ''foo|name'' ''1''
         (example_reader False) = Inr r'"
    and cls: "m_papoClass r' = (m_papoClass (example_reader False))[m_poClass (new_GMLFeature 0) :=
                 ?c\<lparr> m_papoProperty := m_papoProperty ?c @
                      [\<lparr> m_pszName = base_field_name ?c ''foo|name'' @ replicate k CHR ''_'',
                         m_pszSrcElement = ''foo|name'',
                         m_eType = example_analyse GMLPT_String (Some ''1'') \<rparr>] \<rparr>]"
    and below: "\<forall>j<k. base_field_name ?c ''foo|name'' @ replicate j CHR ''_''
                \<in> set (map m_pszName (m_papoProperty ?c))"
    and dist: "distinct (map m_pszName (m_papoProperty (m_papoClass r' ! m_poClass (new_GMLFeature 0))))"
    using SetFeatureProperty_new_property
          [where r = "example_reader False"
             and st = "new_GMLReadState\<lparr> m_poFeature := Some (new_GMLFeature 0) \<rparr>"
             and parents = "[new_GMLReadState]" and poFeature = "new_GMLFeature 0"
             and c = ?c and elem_path = "''foo|name''" and cfg = always_string_cfg
             and analyse = example_analyse and v = "''1''"]
      forced
    by (auto simp: example_reader_def example_class_def new_GMLReader_def
          new_GMLReadState_def new_GMLFeature_def new_GMLFeatureClass_def)
  have "k = 0"
  proof (rule ccontr)
    assume "k \<noteq> 0"
    then have "0 < k" by simp
    with below have "base_field_name ?c ''foo|name'' @ replicate 0 CHR ''_''
                \<in> set (map m_pszName (m_papoProperty ?c))" by blast
    then show False by (simp add: base props)
  qed
  with cls base props dist run forced show ?thesis
    by (simp add: example_reader_def new_GMLFeature_def example_analyse_def)
qed

text \<open>
  C3, the type without \<^verbatim>\<open>ALWAYS_STRING\<close>. With \<^verbatim>\<open>GML_FIELDTYPES\<close> unset, the value \<open>1\<close>
  for the new element \<open>lanes\<close> of a \<open>Road\<close> adds the property \<open>lanes\<close> with the fresh
  type, which the integer value widens to integer: the new property is not a string
  property.
\<close>

theorem SetFeatureProperty_type_counterexample:
  "map_sum id (\<lambda>r'. m_papoProperty (m_papoClass r' ! 0))
     (SetFeatureProperty (\<lambda>k. None) example_analyse ''lanes'' ''1'' (example_reader False))
   = Inr [\<lparr> m_pszName = ''name'', m_pszSrcElement = ''name'', m_eType = GMLPT_String \<rparr>,
          \<lparr> m_pszName = ''lanes'', m_pszSrcElement = ''lanes'', m_eType = GMLPT_Integer \<rparr>]
   \<and> GMLPT_Integer \<noteq> GMLPT_String"
  by code_simp

section \<open>Properties of IsFeatureElement\<close>

lemma suffix_iff_drop:
  "suffix xs ys = (length xs \<le> length ys \<and> drop (length ys - length xs) ys = xs)"
proof
  assume "suffix xs ys"
  then obtain zs where "ys = zs @ xs" by (auto simp: suffix_def)
  then show "length xs \<le> length ys \<and> drop (length ys - length xs) ys = xs" by simp
next
  assume "length xs \<le> length ys \<and> drop (length ys - length xs) ys = xs"
  then show "suffix xs ys" by (metis suffix_drop)
qed

lemma suffix_iff_drop_n:
  "length xs = n \<Longrightarrow> suffix xs ys = (n \<le> length ys \<and> drop (length ys - n) ys = xs)"
  using suffix_iff_drop [of xs ys] by simp

lemma EQUAL_drop_ends_in_ci:
  "length tail = n \<Longrightarrow> n \<le> length s \<Longrightarrow>
   EQUAL (drop (length s - n) s) tail = ends_in_ci tail s"
  using suffix_iff_drop [of "map c_tolower tail" "map c_tolower s"]
  by (auto simp: EQUAL_def ends_in_ci_def drop_map)

lemma ends_in_ci_length: "ends_in_ci tail s \<Longrightarrow> length tail \<le> length s"
  by (simp add: ends_in_ci_def suffix_iff_drop)

lemma member_test:
  assumes "\<not> (length L = 6 \<and> EQUAL (c_str (cBefore # L)) ''members'')"
  shows "(6 \<le> length L \<and> (EQUAL (str_at cBefore L (int (length L) - 6)) ''member''
                            \<or> EQUAL (str_at cBefore L (int (length L) - 7)) ''members''))
         = (ends_in_ci ''member'' L \<or> ends_in_ci ''members'' L)"
proof (cases "length L < 6")
  case True
  then show ?thesis
    using ends_in_ci_length [of "''member''" L] ends_in_ci_length [of "''members''" L] by auto
next
  case False
  then have six: "6 \<le> length L" by simp
  have a: "str_at cBefore L (int (length L) - 6) = drop (length L - 6) L"
    using six by (simp add: str_at_def nat_diff_distrib')
  have m: "EQUAL (str_at cBefore L (int (length L) - 6)) ''member'' = ends_in_ci ''member'' L"
    unfolding a using six by (intro EQUAL_drop_ends_in_ci) simp_all
  show ?thesis
  proof (cases "length L = 6")
    case True
    then have "str_at cBefore L (int (length L) - 7) = c_str (cBefore # L)"
      by (simp add: str_at_def)
    moreover have "\<not> ends_in_ci ''members'' L"
      using True ends_in_ci_length [of "''members''" L] by auto
    ultimately show ?thesis using assms True m six by simp
  next
    case False
    with six have seven: "7 \<le> length L" by simp
    have b: "str_at cBefore L (int (length L) - 7) = drop (length L - 7) L"
      using seven by (simp add: str_at_def nat_diff_distrib')
    have "EQUAL (str_at cBefore L (int (length L) - 7)) ''members'' = ends_in_ci ''members'' L"
      unfolding b using seven by (intro EQUAL_drop_ends_in_ci) simp_all
    with m six show ?thesis by simp
  qed
qed

lemma layer_test:
  "(6 < length L \<and> drop (length L - 6) L = ''_layer'') = (6 < length L \<and> suffix ''_layer'' L)"
  using suffix_iff_drop_n [of "''_layer''" 6 L] by auto

lemma feature_test:
  "(8 < length E \<and> drop (length E - 8) E = ''_feature'')
     = (8 < length E \<and> suffix ''_feature'' E)"
  using suffix_iff_drop_n [of "''_feature''" 8 E] by auto

text \<open>
  C2, as amended. Outside the dialect branches (Polish \<open>dane\<close>, OpenLS, MapServer
  \<^verbatim>\<open>_layer\<close>/\<^verbatim>\<open>_feature\<close>), \<open>IsFeatureElement\<close> answers true exactly when the last path
  component ends in \<open>member\<close> or \<open>members\<close>, letter case aside, and, if the class list
  is locked, the element name equals the element name of a registered class under
  \<open>EQUAL\<close>. Left out is the one input on which the comparison with \<open>members\<close> reads
  the byte before the buffer and finds a match there: a last component of exactly six
  characters that, with that byte in front, spells \<open>members\<close>.
\<close>

theorem IsFeatureElement_member_ci:
  assumes st: "m_poState r = st # parents"
    and nd: "\<not> dialect_case (GetLastComponent st) E"
    and nb: "\<not> (length (GetLastComponent st) = 6
               \<and> EQUAL (c_str (cBefore # GetLastComponent st)) ''members'')"
  shows "IsFeatureElement cBefore E r =
           Inr ((ends_in_ci ''member'' (GetLastComponent st)
                 \<or> ends_in_ci ''members'' (GetLastComponent st))
                \<and> (m_bClassListLocked r \<longrightarrow>
                     (\<exists>c \<in> set (m_papoClass r). EQUAL E (m_pszElementName c))))"
proof -
  let ?L = "GetLastComponent st"
  have lay: "(6 < length ?L \<and> drop (length ?L - 6) ?L = ''_layer''
               \<and> 8 < length E \<and> drop (length E - 8) E = ''_feature'') = False"
    using nd layer_test [of ?L] feature_test [of E] by (auto simp: dialect_case_def)
  have d: "(?L = ''dane'') = False"
    "(?L = ''GeocodeResponseList'' \<and> E = ''GeocodedAddress'') = False"
    "(?L = ''DetermineRouteResponse'') = False"
    "(E = ''RouteInstruction'' \<and> ?L = ''RouteInstructionsList'') = False"
    using nd by (auto simp: dialect_case_def)
  have mem: "(length ?L < 6 \<or> \<not> (EQUAL (str_at cBefore ?L (int (length ?L) - 6)) ''member''
                            \<or> EQUAL (str_at cBefore ?L (int (length ?L) - 7)) ''members''))
         = (\<not> (ends_in_ci ''member'' ?L \<or> ends_in_ci ''members'' ?L))"
    using member_test [OF nb] by auto
  have "IsFeatureElement cBefore E r =
          (if \<not> (ends_in_ci ''member'' ?L \<or> ends_in_ci ''members'' ?L) then Inr False
           else Inr (if \<not> IsClassListLocked r then True else class_list_has_element r E))"
    unfolding IsFeatureElement_def Let_def st list.case
    by (simp only: lay d mem if_False)
  then show ?thesis
    by (auto simp: IsClassListLocked_def class_list_has_element_def list_ex_iff)
qed

theorem IsFeatureElement_member_ci_witness:
  "IsFeatureElement (CHR 0x00) ''Road'' (member_state ''featureMember'') = Inr True
   \<and> \<not> dialect_case ''featureMember'' ''Road''
   \<and> ends_in_ci ''member'' ''featureMember''"
proof -
  have L: "GetLastComponent (new_GMLReadState
              \<lparr> m_papszPathComponents := [''FeatureCollection'', ''featureMember''] \<rparr>)
           = ''featureMember''"
    by (simp add: GetLastComponent_def)
  have nd: "\<not> dialect_case ''featureMember'' ''Road''"
    by (simp add: dialect_case_def)
  have e: "ends_in_ci ''member'' ''featureMember''"
    by (simp add: ends_in_ci_def c_tolower_def suffix_iff_drop)
  have "IsFeatureElement (CHR 0x00) ''Road'' (member_state ''featureMember'') = Inr True"
    using IsFeatureElement_member_ci
      [where r = "member_state ''featureMember''"
         and st = "new_GMLReadState
                     \<lparr> m_papszPathComponents := [''FeatureCollection'', ''featureMember''] \<rparr>"
         and parents = "[]" and E = "''Road''" and cBefore = "CHR 0x00"]
      nd e
    by (simp add: L member_state_def new_GMLReader_def)
  with nd e show ?thesis by simp
qed

text \<open>
  C2 as stated fails: the comparison is \<open>EQUAL\<close>, so a last component \<open>featureMEMBER\<close>,
  which ends in neither \<open>member\<close> nor \<open>members\<close>, makes \<open>Road\<close> a feature element.
\<close>

theorem IsFeatureElement_member_counterexample:
  "IsFeatureElement (CHR 0x00) ''Road'' (member_state ''featureMEMBER'') = Inr True
   \<and> \<not> m_bClassListLocked (member_state ''featureMEMBER'')
   \<and> GetLastComponent (hd (m_poState (member_state ''featureMEMBER''))) = ''featureMEMBER''
   \<and> \<not> dialect_case ''featureMEMBER'' ''Road''
   \<and> \<not> suffix ''member'' ''featureMEMBER''
   \<and> \<not> suffix ''members'' ''featureMEMBER''"
  by (simp add: IsFeatureElement_def member_state_def new_GMLReader_def new_GMLReadState_def
      GetLastComponent_def dialect_case_def IsClassListLocked_def str_at_def EQUAL_def
      c_tolower_def suffix_iff_drop Let_def)

section \<open>Properties of LoadClasses\<close>

lemma load_children_effect:
  "load_children init ns r =
     (list_all (\<lambda>n. init n \<noteq> None) (filter is_class_node ns),
      r\<lparr> m_papoClass := m_papoClass r @ classes_before_failure init ns \<rparr>)"
proof (induction ns arbitrary: r)
  case Nil
  then show ?case by (simp add: classes_before_failure_def)
next
  case (Cons n ns)
  show ?case
  proof (cases "is_class_node n")
    case False
    then show ?thesis using Cons.IH [of r] by (simp add: classes_before_failure_def)
  next
    case True
    show ?thesis
    proof (cases "init n")
      case None
      with True show ?thesis by (simp add: classes_before_failure_def)
    next
      case (Some c)
      with True show ?thesis
        using Cons.IH [of "snd (AddClass (SetSchemaLocked True c) r)"]
        by (simp add: classes_before_failure_def AddClass_def Let_def)
    qed
  qed
qed

lemma classes_before_failure_locked:
  "list_all m_bSchemaLocked (classes_before_failure init ns)"
  by (simp add: classes_before_failure_def list_all_iff SetSchemaLocked_def)

lemma CPLError_log: "CPLError m r = r\<lparr> cpl_log := cpl_log r @ [m] \<rparr>"
  by (simp add: CPLError_def)

lemma LoadClasses_no_tree:
  assumes n: "schema_tree env pszFile = None"
  shows "fst (LoadClasses env pszFile r) = False
       \<and> (snd (LoadClasses env pszFile r))\<lparr> cpl_log := cpl_log r \<rparr> = r"
proof (cases pszFile)
  case None
  then show ?thesis by (simp add: LoadClasses_def)
next
  case (Some fname)
  note fname = this
  show ?thesis
  proof (cases "OpenSchemaFile env fname")
    case None
    with fname show ?thesis by (simp add: LoadClasses_def CPLError_log)
  next
    case (Some fp)
    note fp = this
    show ?thesis
    proof (cases "sf_alloc_ok fp \<and> sf_read_ok fp
                  \<and> strstr_found (c_str (sf_bytes fp)) ''<GMLFeatureClassList>''")
      case False
      with fname fp show ?thesis by (auto simp: LoadClasses_def CPLError_log Let_def)
    next
      case True
      note checks = this
      show ?thesis
      proof (cases "CPLParseXMLString env (c_str (sf_bytes fp))")
        case None
        with fname fp checks show ?thesis by (simp add: LoadClasses_def Let_def)
      next
        case (Some psRoot)
        with n fname fp checks
        have "xml_eType psRoot \<noteq> CXT_Element
              \<or> \<not> EQUAL (xml_pszValue psRoot) ''GMLFeatureClassList''"
          by (auto simp: schema_tree_def split: if_splits)
        with fname fp checks Some show ?thesis
          by (auto simp: LoadClasses_def CPLError_log Let_def)
      qed
    qed
  qed
qed

lemma schema_tree_SomeD:
  assumes "schema_tree env pszFile = Some psRoot"
  shows "\<exists>fname fp. pszFile = Some fname \<and> OpenSchemaFile env fname = Some fp
           \<and> sf_alloc_ok fp \<and> sf_read_ok fp
           \<and> strstr_found (c_str (sf_bytes fp)) ''<GMLFeatureClassList>''
           \<and> CPLParseXMLString env (c_str (sf_bytes fp)) = Some psRoot
           \<and> xml_eType psRoot = CXT_Element
           \<and> EQUAL (xml_pszValue psRoot) ''GMLFeatureClassList''"
proof -
  from assms obtain fname where fname: "pszFile = Some fname"
    by (cases pszFile) (simp_all add: schema_tree_def)
  from assms fname obtain fp where fp: "OpenSchemaFile env fname = Some fp"
    by (cases "OpenSchemaFile env fname") (simp_all add: schema_tree_def)
  from assms fname fp have checks: "sf_alloc_ok fp \<and> sf_read_ok fp
      \<and> strstr_found (c_str (sf_bytes fp)) ''<GMLFeatureClassList>''"
    by (simp add: schema_tree_def split: if_splits)
  from assms fname fp checks obtain q where q: "CPLParseXMLString env (c_str (sf_bytes fp)) = Some q"
    by (cases "CPLParseXMLString env (c_str (sf_bytes fp))") (simp_all add: schema_tree_def)
  from assms fname fp checks q have "q = psRoot \<and> xml_eType q = CXT_Element
      \<and> EQUAL (xml_pszValue q) ''GMLFeatureClassList''"
    by (simp add: schema_tree_def split: if_splits)
  with fname fp checks q show ?thesis by blast
qed

lemma LoadClasses_tree:
  assumes "schema_tree env pszFile = Some psRoot"
  shows "LoadClasses env pszFile r =
     (if list_all (\<lambda>n. InitializeFromXML env n \<noteq> None)
           (filter is_class_node (xml_psChild psRoot))
      then (True, r\<lparr> m_papoClass := m_papoClass r
                        @ classes_before_failure (InitializeFromXML env) (xml_psChild psRoot),
                      m_bClassListLocked := True \<rparr>)
      else (False, r\<lparr> m_papoClass := m_papoClass r
                        @ classes_before_failure (InitializeFromXML env) (xml_psChild psRoot) \<rparr>))"
proof -
  from schema_tree_SomeD [OF assms] obtain fname fp where
    "pszFile = Some fname" "OpenSchemaFile env fname = Some fp"
    "sf_alloc_ok fp" "sf_read_ok fp"
    "strstr_found (c_str (sf_bytes fp)) ''<GMLFeatureClassList>''"
    "CPLParseXMLString env (c_str (sf_bytes fp)) = Some psRoot"
    "xml_eType psRoot = CXT_Element"
    "EQUAL (xml_pszValue psRoot) ''GMLFeatureClassList''"
    by blast
  then show ?thesis
    by (simp add: LoadClasses_def Let_def load_children_effect SetClassListLocked_def
        del: not_None_eq)
qed

text \<open>
  C4, as amended. When \<open>LoadClasses\<close> fails before it walks the tree (NULL file name,
  file that does not open, buffer or read failure, text without
  \<^verbatim>\<open><GMLFeatureClassList>\<close>, parse failure, wrong root element) it returns false and
  the reader is what it was, messages aside. When it walks the tree, it returns true
  exactly when \<open>InitializeFromXML\<close> accepts every \<^verbatim>\<open>GMLFeatureClass\<close> child; the classes
  of the children before the first rejected one are appended to the registry, each with
  its schema locked, also when the call then returns false; the class list becomes
  locked on success and keeps its flag on failure; nothing else changes. On success
  there is one new class per \<^verbatim>\<open>GMLFeatureClass\<close> child.
\<close>

theorem LoadClasses_effect:
  "(schema_tree env pszFile = None \<longrightarrow>
      fst (LoadClasses env pszFile r) = False
      \<and> (snd (LoadClasses env pszFile r))\<lparr> cpl_log := cpl_log r \<rparr> = r)
   \<and> (\<forall>psRoot. schema_tree env pszFile = Some psRoot \<longrightarrow>
        (let new = classes_before_failure (InitializeFromXML env) (xml_psChild psRoot);
             all_ok = list_all (\<lambda>n. InitializeFromXML env n \<noteq> None)
                        (filter is_class_node (xml_psChild psRoot))
         in list_all m_bSchemaLocked new
            \<and> LoadClasses env pszFile r =
                (all_ok, r\<lparr> m_papoClass := m_papoClass r @ new,
                             m_bClassListLocked := (all_ok \<or> m_bClassListLocked r) \<rparr>)
            \<and> (all_ok \<longrightarrow> length new = length (filter is_class_node (xml_psChild psRoot)))))"
proof (intro conjI allI impI)
  assume "schema_tree env pszFile = None"
  then show "fst (LoadClasses env pszFile r) = False"
    using LoadClasses_no_tree by blast
next
  assume "schema_tree env pszFile = None"
  then show "(snd (LoadClasses env pszFile r))\<lparr> cpl_log := cpl_log r \<rparr> = r"
    using LoadClasses_no_tree by blast
next
  fix psRoot
  assume t: "schema_tree env pszFile = Some psRoot"
  let ?ns = "filter is_class_node (xml_psChild psRoot)"
  have len: "list_all (\<lambda>n. InitializeFromXML env n \<noteq> None) ?ns \<Longrightarrow>
             length (classes_before_failure (InitializeFromXML env) (xml_psChild psRoot))
               = length ?ns"
    by (simp add: classes_before_failure_def list_all_iff takeWhile_eq_all_conv [THEN iffD2])
  show "let new = classes_before_failure (InitializeFromXML env) (xml_psChild psRoot);
            all_ok = list_all (\<lambda>n. InitializeFromXML env n \<noteq> None) ?ns
        in list_all m_bSchemaLocked new
           \<and> LoadClasses env pszFile r =
               (all_ok, r\<lparr> m_papoClass := m_papoClass r @ new,
                            m_bClassListLocked := (all_ok \<or> m_bClassListLocked r) \<rparr>)
           \<and> (all_ok \<longrightarrow> length new = length ?ns)"
    using LoadClasses_tree [OF t, of r] classes_before_failure_locked len
    by (simp add: Let_def del: not_None_eq)
qed

theorem LoadClasses_effect_witness:
  "schema_tree (example_load_env two_class_schema) (Some ''roads.gfs'') = Some two_class_schema
   \<and> LoadClasses (example_load_env two_class_schema) (Some ''roads.gfs'')
        (new_GMLReader True False False)
      = (False, (new_GMLReader True False False)
                  \<lparr> m_papoClass := [SetSchemaLocked True (new_GMLFeatureClass ''Road'')] \<rparr>)
   \<and> schema_tree (example_load_env two_class_schema) None = None
   \<and> fst (LoadClasses (example_load_env two_class_schema) None
             (new_GMLReader True False False)) = False"
proof -
  let ?env = "example_load_env two_class_schema"
  let ?r = "new_GMLReader True False False"
  have t: "schema_tree ?env (Some ''roads.gfs'') = Some two_class_schema"
    by (simp add: schema_tree_def example_load_env_def two_class_schema_def c_str_def
        EQUAL_def c_tolower_def)
  have n: "schema_tree ?env None = None"
    by (simp add: schema_tree_def)
  have cls: "classes_before_failure (InitializeFromXML ?env) (xml_psChild two_class_schema)
               = [SetSchemaLocked True (new_GMLFeatureClass ''Road'')]"
    by (simp add: classes_before_failure_def example_load_env_def two_class_schema_def
        is_class_node_def name_of_class_node_def EQUAL_def c_tolower_def)
  have ok: "list_all (\<lambda>n. InitializeFromXML ?env n \<noteq> None)
              (filter is_class_node (xml_psChild two_class_schema)) = False"
    by (simp add: example_load_env_def two_class_schema_def
        is_class_node_def name_of_class_node_def EQUAL_def c_tolower_def del: not_None_eq)
  have unl: "m_bClassListLocked ?r = False" "m_papoClass ?r = []"
    by (simp_all add: new_GMLReader_def)
  from LoadClasses_effect [of ?env "Some ''roads.gfs''" ?r] t
  have "LoadClasses ?env (Some ''roads.gfs'') ?r
          = (False, ?r\<lparr> m_papoClass := [SetSchemaLocked True (new_GMLFeatureClass ''Road'')] \<rparr>)"
    by (simp add: Let_def cls ok unl del: not_None_eq)
  moreover from LoadClasses_effect [of ?env None ?r] n
  have "fst (LoadClasses ?env None ?r) = False" by auto
  ultimately show ?thesis using t n by simp
qed

text \<open>
  C4 as stated fails: with a schema of two classes of which \<open>InitializeFromXML\<close> rejects
  the second, \<open>LoadClasses\<close> returns false and the first class stays in the registry.
\<close>

theorem LoadClasses_failure_counterexample:
  "fst (LoadClasses (example_load_env two_class_schema) (Some ''roads.gfs'')
          (new_GMLReader True False False)) = False
   \<and> m_papoClass (new_GMLReader True False False) = []
   \<and> m_papoClass (snd (LoadClasses (example_load_env two_class_schema) (Some ''roads.gfs'')
          (new_GMLReader True False False)))
      = [SetSchemaLocked True (new_GMLFeatureClass ''Road'')]"
  by (simp add: LoadClasses_def example_load_env_def two_class_schema_def c_str_def
      is_class_node_def name_of_class_node_def EQUAL_def c_tolower_def AddClass_def Let_def
      new_GMLReader_def GetClassCount_def)

section \<open>Properties of NextFeature after stop_parsing\<close>

lemma PopState_keeps:
  "m_bStopParsing (PopState r) = m_bStopParsing r"
  "bUseExpatReader (PopState r) = bUseExpatReader r"
  "m_bReadStarted (PopState r) = m_bReadStarted r"
  "fpGML (PopState r) = fpGML r"
  by (cases "m_poState r"; simp add: PopState_def Let_def split: option.splits)+

lemma pop_all_keeps:
  "m_bStopParsing (pop_all r) = m_bStopParsing r
   \<and> bUseExpatReader (pop_all r) = bUseExpatReader r
   \<and> fpGML (pop_all r) = fpGML r"
proof (induction r rule: pop_all.induct)
  case (1 r)
  show ?case
  proof (cases "m_poState r = []")
    case True
    then show ?thesis using pop_all.simps [of r] by simp
  next
    case False
    with 1 show ?thesis using pop_all.simps [of r] by (simp add: PopState_keeps)
  qed
qed

lemma CleanupParser_keeps:
  "m_bStopParsing (CleanupParser r) = m_bStopParsing r"
  "bUseExpatReader (CleanupParser r) = bUseExpatReader r"
  "fpGML (CleanupParser r) = fpGML r"
  by (simp_all add: CleanupParser_def pop_all_keeps)

lemma SetupParser_keeps:
  "m_bStopParsing (snd (SetupParser env r)) = m_bStopParsing r"
  "bUseExpatReader (snd (SetupParser env r)) = bUseExpatReader r"
  by (simp_all add: SetupParser_def SetupParserExpat_def SetupParserXerces_def Let_def
      PushState_def CPLError_def CleanupParser_keeps split: prod.splits if_splits)

lemma NextFeatureExpat_stopped:
  assumes "m_bStopParsing r" and "bUseExpatReader r"
  shows "\<exists>r'. NextFeatureExpat env r = Inr (None, r') \<and> m_bStopParsing r'
              \<and> bUseExpatReader r'"
  using assms by (simp add: NextFeatureExpat_def Let_def SetupParser_keeps)

lemma xerces_loop_stopped: "m_bStopParsing r \<Longrightarrow> xerces_loop cs r = (None, r)"
  by (cases cs) simp_all

lemma PopState_ctrl: "ctrl (PopState r) = ctrl r"
  by (cases "m_poState r"; simp add: ctrl_def PopState_def Let_def split: option.splits)

lemma PushFeature_ctrl:
  "ctrl (PushFeature e fid r) = ctrl r"
  "m_poCompleteFeature (PushFeature e fid r) = m_poCompleteFeature r"
  "ppoFeatureTab (PushFeature e fid r) = ppoFeatureTab r"
  by (simp_all add: ctrl_def PushFeature_def PushState_def AddClass_def Let_def)

lemma run_call_push:
  "ctrl (run_call (CallPushFeature e fid g) r) = ctrl r"
  "m_poCompleteFeature (run_call (CallPushFeature e fid g) r) = m_poCompleteFeature r"
  "ppoFeatureTab (run_call (CallPushFeature e fid g) r) = ppoFeatureTab r"
  using PushFeature_ctrl [of e fid r]
  by (cases "m_poState (PushFeature e fid r)"; simp add: run_call_def Let_def ctrl_def)+

lemma run_call_ctrl: "ctrl (run_call c r) = ctrl r"
  by (cases c) (simp_all add: run_call_push, simp add: run_call_def PopState_ctrl)

lemma fold_run_call_ctrl: "ctrl (fold run_call cs r) = ctrl r"
  by (induction cs arbitrary: r) (simp_all add: run_call_ctrl)

lemma fold_run_call_latch:
  "CallPopState \<notin> set cs \<Longrightarrow>
   m_poCompleteFeature (fold run_call cs r) = m_poCompleteFeature r"
proof (induction cs arbitrary: r)
  case Nil
  then show ?case by simp
next
  case (Cons c cs)
  then obtain e fid g where c: "c = CallPushFeature e fid g" by (cases c) auto
  from Cons show ?case by (simp add: c run_call_push)
qed

lemma set_unread_ctrl:
  "ctrl (set_unread cs r) = ctrl r"
  "m_poCompleteFeature (set_unread cs r) = m_poCompleteFeature r"
  "unread (set_unread cs r) = (if fpGML r = None then [] else cs)"
  by (cases "fpGML r"; simp add: ctrl_def set_unread_def unread_def)+

lemma unread_ctrl_fold: "unread (fold run_call cs r) = unread r"
  using fold_run_call_frame [of cs r] by (simp add: unread_def)

lemma run_chunk_ctrl:
  "ctrl (run_chunk c cs r) = ctrl r"
  "unread (run_chunk c cs r) = (if fpGML r = None then [] else cs)"
  "ends_no_feature c \<Longrightarrow> m_poCompleteFeature (run_chunk c cs r) = m_poCompleteFeature r"
  by (simp_all add: run_chunk_def fold_run_call_ctrl set_unread_ctrl unread_ctrl_fold
      fold_run_call_latch ends_no_feature_def)

lemma pull_yields_Nil: "pull_yields []"
  by (simp add: pull_yields_def)

lemma pull_yields_tail: "pull_yields (c # cs) \<Longrightarrow> pull_yields cs"
  by (simp add: pull_yields_def)

lemma pull_yields_head:
  "pull_yields (c # cs) \<Longrightarrow> ch_failure c = Some e \<Longrightarrow> ends_no_feature c"
  by (simp add: pull_yields_def)

lemma run_chunk_yields: "pull_yields (c # cs) \<Longrightarrow> pull_yields (unread (run_chunk c cs r))"
  by (simp add: run_chunk_ctrl pull_yields_Nil pull_yields_tail)

lemma xerces_loop_ok:
  assumes "pull_yields cs" and "pull_yields (unread r)" and "xerces_loop cs r = (res, r1)"
  shows "ctrl r1 = ctrl r \<and> pull_yields (unread r1)
       \<and> (res \<noteq> None \<longrightarrow> m_poCompleteFeature r1 = None)"
  using assms
proof (induction cs arbitrary: r)
  case Nil
  then show ?case by simp
next
  case (Cons c cs)
  show ?case
  proof (cases "m_poCompleteFeature r = None \<and> \<not> m_bStopParsing r")
    case False
    with Cons.prems show ?thesis by auto
  next
    case True
    note go = this
    have y: "pull_yields (unread (run_chunk c cs r))"
      using Cons.prems(1) by (rule run_chunk_yields)
    show ?thesis
    proof (cases "ch_failure c")
      case (Some e)
      with go Cons.prems have r1: "r1 = run_chunk c cs r" and res: "res = Some e" by simp_all
      have "ends_no_feature c" using Cons.prems(1) Some by (rule pull_yields_head)
      then have "m_poCompleteFeature r1 = None" using go r1 by (simp add: run_chunk_ctrl)
      then show ?thesis using r1 y by (simp add: run_chunk_ctrl)
    next
      case None
      with go Cons.prems have "xerces_loop cs (run_chunk c cs r) = (res, r1)" by simp
      from Cons.IH [OF pull_yields_tail [OF Cons.prems(1)] y this]
      show ?thesis by (simp add: run_chunk_ctrl)
    qed
  qed
qed

lemma xerces_catch_ctrl:
  "m_bStopParsing (xerces_catch e r)"
  "bUseExpatReader (xerces_catch e r) = bUseExpatReader r"
  "m_poSAXReader (xerces_catch e r) = m_poSAXReader r"
  "m_GMLInputSource (xerces_catch e r) = m_GMLInputSource r"
  "m_bReadStarted (xerces_catch e r) = m_bReadStarted r"
  "m_pszFilename (xerces_catch e r) = m_pszFilename r"
  "fpGML (xerces_catch e r) = fpGML r"
  "m_poCompleteFeature (xerces_catch e r) = m_poCompleteFeature r"
  by (cases e; simp add: xerces_catch_def CPLError_def)+

lemma reader_ok_cong:
  assumes "reader_ok env r"
    and "bUseExpatReader r' = bUseExpatReader r"
    and "m_poSAXReader r' = m_poSAXReader r"
    and "m_GMLInputSource r' = m_GMLInputSource r"
    and "m_pszFilename r' = m_pszFilename r"
    and "map_option f_all (fpGML r') = map_option f_all (fpGML r)"
    and "m_poCompleteFeature r' = None" and "pull_yields (unread r')"
    and "m_bReadStarted r'"
  shows "reader_ok env r'"
proof (cases "bUseExpatReader r")
  case True
  with assms(2) show ?thesis by (simp add: reader_ok_def)
next
  case False
  with assms(1) have ok: "m_GMLInputSource r \<longrightarrow> m_poSAXReader r"
    "case fpGML r of None \<Rightarrow> True | Some f \<Rightarrow> pull_contract (f_all f)"
    "case VSIFOpenL env (m_pszFilename r) of None \<Rightarrow> True | Some doc \<Rightarrow> pull_contract doc"
    by (simp_all add: reader_ok_def)
  have fl: "case fpGML r' of None \<Rightarrow> True | Some f \<Rightarrow> pull_contract (f_all f)"
    using ok(2) assms(6) by (cases "fpGML r"; cases "fpGML r'"; simp)
  show ?thesis
    unfolding reader_ok_def using ok(1,3) assms(3,4,5,7,8,9) fl by simp
qed

lemma xerces_deliver_ok:
  assumes ok: "reader_ok env r" and x: "\<not> bUseExpatReader r" and st: "m_bReadStarted r"
  shows "(m_bStopParsing r \<longrightarrow> xerces_deliver r = Inr (None, r))
       \<and> (\<forall>f r'. xerces_deliver r = Inr (f, r') \<longrightarrow>
            reader_ok env r' \<and> (m_bStopParsing r \<longrightarrow> m_bStopParsing r')
            \<and> (m_bStopParsing r' \<longrightarrow> f = None))"
proof -
  from ok x have latch: "m_poCompleteFeature r = None" and y: "pull_yields (unread r)"
    by (simp_all add: reader_ok_def)
  have stopped: "m_bStopParsing r \<longrightarrow> xerces_deliver r = Inr (None, r)"
  proof
    assume s: "m_bStopParsing r"
    have "r\<lparr> m_poCompleteFeature := None \<rparr> = r" using latch by simp
    then show "xerces_deliver r = Inr (None, r)"
      using s latch by (simp add: xerces_deliver_def xerces_loop_stopped)
  qed
  have step: "\<forall>f r'. xerces_deliver r = Inr (f, r') \<longrightarrow>
            reader_ok env r' \<and> (m_bStopParsing r \<longrightarrow> m_bStopParsing r')
            \<and> (m_bStopParsing r' \<longrightarrow> f = None)"
  proof (intro allI impI)
    fix f r' assume d: "xerces_deliver r = Inr (f, r')"
    obtain res r1 where loop: "xerces_loop (unread r) r = (res, r1)"
      by (cases "xerces_loop (unread r) r") auto
    from xerces_loop_ok [OF y y loop] have c1: "ctrl r1 = ctrl r"
      and y1: "pull_yields (unread r1)"
      and l1: "res \<noteq> None \<longrightarrow> m_poCompleteFeature r1 = None" by simp_all
    show "reader_ok env r' \<and> (m_bStopParsing r \<longrightarrow> m_bStopParsing r')
            \<and> (m_bStopParsing r' \<longrightarrow> f = None)"
    proof (cases res)
      case (Some e)
      with d loop have f: "f = None" and r': "r' = xerces_catch e r1"
        by (auto simp: xerces_deliver_def split: if_splits)
      have "reader_ok env r'"
        using ok
      proof (rule reader_ok_cong)
        show "m_poCompleteFeature r' = None"
          using l1 Some by (simp add: r' xerces_catch_ctrl)
        show "pull_yields (unread r')"
          using y1 by (simp add: r' unread_def xerces_catch_ctrl)
        show "m_bReadStarted r'" using c1 st by (simp add: r' xerces_catch_ctrl ctrl_def)
      qed (use c1 in \<open>simp_all add: r' xerces_catch_ctrl ctrl_def\<close>)
      then show ?thesis using f by (simp add: r' xerces_catch_ctrl)
    next
      case None
      with d loop have f: "f = m_poCompleteFeature r1"
        and r': "r' = r1\<lparr> m_poCompleteFeature := None \<rparr>"
        by (auto simp: xerces_deliver_def split: if_splits)
      have "reader_ok env r'"
        using ok
      proof (rule reader_ok_cong)
        show "m_poCompleteFeature r' = None" by (simp add: r')
        show "pull_yields (unread r')" using y1 by (simp add: r' unread_def)
        show "m_bReadStarted r'" using c1 st by (simp add: r' ctrl_def)
      qed (use c1 in \<open>simp_all add: r' ctrl_def\<close>)
      moreover have "m_bStopParsing r' = m_bStopParsing r"
        using c1 by (simp add: r' ctrl_def)
      moreover have "m_bStopParsing r \<longrightarrow> f = None"
      proof
        assume "m_bStopParsing r"
        then have "xerces_loop (unread r) r = (None, r)" by (rule xerces_loop_stopped)
        with loop have "r1 = r" by simp
        then show "f = None" using f latch by simp
      qed
      ultimately show ?thesis by simp
    qed
  qed
  from stopped step show ?thesis by simp
qed

lemma pop_all_ctrl:
  "m_pszFilename (pop_all r) = m_pszFilename r"
proof (induction r rule: pop_all.induct)
  case (1 r)
  show ?case
  proof (cases "m_poState r = []")
    case True
    then show ?thesis using pop_all.simps [of r] by simp
  next
    case False
    have "m_pszFilename (PopState r) = m_pszFilename r"
      using PopState_ctrl [of r] by (simp add: ctrl_def)
    with 1 False show ?thesis using pop_all.simps [of r] by simp
  qed
qed

lemma ResetReading_ok:
  assumes "reader_ok env r"
  shows "reader_ok env (ResetReading r) \<and> m_bStopParsing (ResetReading r) = m_bStopParsing r"
proof -
  have s: "m_bStopParsing (ResetReading r) = m_bStopParsing r"
    by (simp add: ResetReading_def CleanupParser_keeps)
  have b: "bUseExpatReader (ResetReading r) = bUseExpatReader r"
    by (simp add: ResetReading_def CleanupParser_keeps)
  have "reader_ok env (ResetReading r)"
  proof (cases "bUseExpatReader r")
    case True
    with b show ?thesis by (simp add: reader_ok_def)
  next
    case False
    note x = this
    show ?thesis
    proof (cases "m_poSAXReader r")
      case False
      with x have "CleanupParser r = r" by (simp add: CleanupParser_def)
      with assms show ?thesis by (simp add: ResetReading_def reader_ok_def unread_def)
    next
      case True
      with x have c: "CleanupParser r = (pop_all r)
             \<lparr> m_poSAXReader := False, m_GMLInputSource := False,
               m_poCompleteFeature := None,
               oParser := False, nFeatureTabIndex := 0, ppoFeatureTab := [],
               m_poGMLHandler := False, m_bReadStarted := False \<rparr>"
        by (simp add: CleanupParser_def)
      have f: "fpGML (pop_all r) = fpGML r" "m_pszFilename (pop_all r) = m_pszFilename r"
        by (simp_all add: pop_all_keeps pop_all_ctrl)
      from assms x have ok: "pull_yields (unread r)"
        "case fpGML r of None \<Rightarrow> True | Some f \<Rightarrow> pull_contract (f_all f)"
        "case VSIFOpenL env (m_pszFilename r) of None \<Rightarrow> True | Some doc \<Rightarrow> pull_contract doc"
        by (simp_all add: reader_ok_def)
      then show ?thesis
        by (simp add: ResetReading_def c reader_ok_def unread_def f)
    qed
  qed
  with s show ?thesis by simp
qed

lemma SetupParserXerces_noSAX:
  assumes "\<not> m_poSAXReader q"
  shows "\<exists>b r3. SetupParserXerces env q = (b, r3)
       \<and> m_poCompleteFeature r3 = m_poCompleteFeature q
       \<and> m_bStopParsing r3 = m_bStopParsing q
       \<and> bUseExpatReader r3 = bUseExpatReader q
       \<and> fpGML r3 = fpGML q
       \<and> m_pszFilename r3 = m_pszFilename q
       \<and> m_poSAXReader r3 = b
       \<and> m_GMLInputSource r3 = (m_GMLInputSource q \<or> (b \<and> fpGML q \<noteq> None))"
proof (cases "\<not> m_bXercesInitialized q \<and> \<not> XercesInitOK env")
  case True
  then show ?thesis using assms by (auto simp: SetupParserXerces_def CPLError_def)
next
  case False
  note init = this
  show ?thesis
  proof (cases "XercesCreateOK env")
    case False
    with init assms show ?thesis
      by (auto simp: SetupParserXerces_def Let_def CPLError_def)
  next
    case True
    with init assms show ?thesis
      by (auto simp: SetupParserXerces_def Let_def)
  qed
qed

lemma SetupParser_noSAX:
  assumes x: "\<not> bUseExpatReader r" and sax: "\<not> m_poSAXReader r"
    and src: "\<not> m_GMLInputSource r"
  shows "m_poCompleteFeature (snd (SetupParser env r)) = m_poCompleteFeature r
       \<and> m_bStopParsing (snd (SetupParser env r)) = m_bStopParsing r
       \<and> \<not> bUseExpatReader (snd (SetupParser env r))
       \<and> m_pszFilename (snd (SetupParser env r)) = m_pszFilename r
       \<and> fpGML (snd (SetupParser env r)) =
           (case fpGML r of
              None \<Rightarrow> map_option (\<lambda>cs. \<lparr> f_all = cs, f_rest = cs \<rparr>)
                        (VSIFOpenL env (m_pszFilename r))
            | Some f \<Rightarrow> Some (f\<lparr> f_rest := f_all f \<rparr>))
       \<and> (m_GMLInputSource (snd (SetupParser env r)) \<longrightarrow>
            m_poSAXReader (snd (SetupParser env r)))"
proof -
  let ?r1 = "if fpGML r = None
             then r\<lparr> fpGML := map_option (\<lambda>cs. \<lparr> f_all = cs, f_rest = cs \<rparr>)
                                (VSIFOpenL env (m_pszFilename r)) \<rparr>
             else r"
  let ?r2 = "?r1\<lparr> fpGML := map_option (\<lambda>f. f\<lparr> f_rest := f_all f \<rparr>) (fpGML ?r1) \<rparr>"
  have q: "\<not> m_poSAXReader ?r2" using sax by simp
  have fp2: "fpGML ?r2 =
           (case fpGML r of
              None \<Rightarrow> map_option (\<lambda>cs. \<lparr> f_all = cs, f_rest = cs \<rparr>)
                        (VSIFOpenL env (m_pszFilename r))
            | Some f \<Rightarrow> Some (f\<lparr> f_rest := f_all f \<rparr>))"
    by (cases "fpGML r"; cases "VSIFOpenL env (m_pszFilename r)"; simp)
  have other: "m_poCompleteFeature ?r2 = m_poCompleteFeature r"
    "m_bStopParsing ?r2 = m_bStopParsing r" "bUseExpatReader ?r2 = bUseExpatReader r"
    "m_pszFilename ?r2 = m_pszFilename r" "m_GMLInputSource ?r2 = m_GMLInputSource r"
    by simp_all
  from SetupParserXerces_noSAX [OF q, of env] obtain b r3 where
    sx: "SetupParserXerces env ?r2 = (b, r3)"
    and r3: "m_poCompleteFeature r3 = m_poCompleteFeature ?r2"
      "m_bStopParsing r3 = m_bStopParsing ?r2"
      "bUseExpatReader r3 = bUseExpatReader ?r2"
      "fpGML r3 = fpGML ?r2"
      "m_pszFilename r3 = m_pszFilename ?r2"
      "m_poSAXReader r3 = b"
      "m_GMLInputSource r3 = (m_GMLInputSource ?r2 \<or> (b \<and> fpGML ?r2 \<noteq> None))"
    by blast
  have sp: "SetupParser env r =
              (if \<not> b then (False, r3)
               else (True, PushState new_GMLReadState (r3\<lparr> m_bReadStarted := False \<rparr>)))"
    unfolding SetupParser_def Let_def using x sx by (simp only: other if_False split_conv)
  show ?thesis
  proof (cases b)
    case False
    with sp have "snd (SetupParser env r) = r3" by simp
    with r3 other fp2 x src False show ?thesis by simp
  next
    case True
    with sp have "snd (SetupParser env r)
                    = PushState new_GMLReadState (r3\<lparr> m_bReadStarted := False \<rparr>)" by simp
    with r3 other fp2 x src True show ?thesis by (simp add: PushState_def)
  qed
qed

lemma NextFeatureXerces_start_ok:
  assumes ok: "reader_ok env r" and x: "\<not> bUseExpatReader r" and ns: "\<not> m_bReadStarted r"
    and r2: "r2 = (if \<not> m_poSAXReader r then snd (SetupParser env r) else r)
                   \<lparr> m_bReadStarted := True \<rparr>"
  shows "reader_ok env r2 \<and> \<not> bUseExpatReader r2 \<and> m_bStopParsing r2 = m_bStopParsing r
       \<and> m_bReadStarted r2
       \<and> (m_poSAXReader r2 \<longrightarrow> quiet_start (unread r2))
       \<and> (m_GMLInputSource r2 \<longrightarrow> m_poSAXReader r2)"
proof -
  from ok x have latch: "m_poCompleteFeature r = None"
    and src: "m_GMLInputSource r \<longrightarrow> m_poSAXReader r"
    and y: "pull_yields (unread r)"
    and q: "m_poSAXReader r \<longrightarrow> quiet_start (unread r)"
    and fl: "case fpGML r of None \<Rightarrow> True | Some f \<Rightarrow> pull_contract (f_all f)"
    and op: "case VSIFOpenL env (m_pszFilename r) of None \<Rightarrow> True | Some doc \<Rightarrow> pull_contract doc"
    using ns by (simp_all add: reader_ok_def)
  show ?thesis
  proof (cases "m_poSAXReader r")
    case True
    then have "r2 = r\<lparr> m_bReadStarted := True \<rparr>" using r2 by simp
    then show ?thesis
      using latch src y q fl op x True by (simp add: reader_ok_def unread_def)
  next
    case False
    with src have nosrc: "\<not> m_GMLInputSource r" by simp
    let ?s = "snd (SetupParser env r)"
    from SetupParser_noSAX [OF x False nosrc, of env]
    have s: "m_poCompleteFeature ?s = m_poCompleteFeature r"
      "m_bStopParsing ?s = m_bStopParsing r"
      "\<not> bUseExpatReader ?s"
      "m_pszFilename ?s = m_pszFilename r"
      "fpGML ?s = (case fpGML r of
              None \<Rightarrow> map_option (\<lambda>cs. \<lparr> f_all = cs, f_rest = cs \<rparr>)
                        (VSIFOpenL env (m_pszFilename r))
            | Some f \<Rightarrow> Some (f\<lparr> f_rest := f_all f \<rparr>))"
      "m_GMLInputSource ?s \<longrightarrow> m_poSAXReader ?s"
      by simp_all
    have r2': "r2 = ?s\<lparr> m_bReadStarted := True \<rparr>" using r2 False by simp
    have fl2: "case fpGML ?s of None \<Rightarrow> True | Some f \<Rightarrow> pull_contract (f_all f)"
      using fl op unfolding s(5)
      by (cases "fpGML r"; cases "VSIFOpenL env (m_pszFilename r)"; simp)
    have un: "pull_contract (unread ?s)"
      using fl op unfolding unread_def s(5)
      by (cases "fpGML r"; cases "VSIFOpenL env (m_pszFilename r)";
          simp add: pull_contract_def quiet_start_def pull_yields_def)
    have "reader_ok env r2"
      unfolding reader_ok_def r2'
      using s(1,4,6) latch op fl2 un by (simp add: unread_def pull_contract_def)
    moreover have "quiet_start (unread r2)"
      using un by (simp add: r2' unread_def pull_contract_def)
    ultimately show ?thesis using s(2,3,6) by (simp add: r2')
  qed
qed

lemma NextFeatureXerces_ok:
  assumes ok: "reader_ok env r" and x: "\<not> bUseExpatReader r"
  shows "(m_bStopParsing r \<longrightarrow> (\<exists>r'. NextFeatureXerces env r = Inr (None, r')))
       \<and> (\<forall>f r'. NextFeatureXerces env r = Inr (f, r') \<longrightarrow>
            reader_ok env r' \<and> (m_bStopParsing r \<longrightarrow> m_bStopParsing r')
            \<and> (m_bStopParsing r' \<longrightarrow> f = None))"
proof (cases "m_bReadStarted r")
  case True
  then have "NextFeatureXerces env r = xerces_deliver r" by (simp add: NextFeatureXerces_def)
  with xerces_deliver_ok [OF ok x True] show ?thesis by simp
next
  case False
  define r2 where "r2 = (if \<not> m_poSAXReader r then snd (SetupParser env r) else r)
                          \<lparr> m_bReadStarted := True \<rparr>"
  from NextFeatureXerces_start_ok [OF ok x False r2_def]
  have ok2: "reader_ok env r2" and x2: "\<not> bUseExpatReader r2"
    and s2: "m_bStopParsing r2 = m_bStopParsing r" and st2: "m_bReadStarted r2"
    and q2: "m_poSAXReader r2 \<longrightarrow> quiet_start (unread r2)"
    and src2: "m_GMLInputSource r2 \<longrightarrow> m_poSAXReader r2"
    by simp_all
  from ok2 x2 have latch2: "m_poCompleteFeature r2 = None" and y2: "pull_yields (unread r2)"
    by (simp_all add: reader_ok_def)
  have nf: "NextFeatureXerces env r =
     (if \<not> m_GMLInputSource r2 then Inr (None, r2)
      else if \<not> m_poSAXReader r2 then Inl NullDereference
      else (case unread r2 of
              [] \<Rightarrow> Inr (None, r2)
            | c # cs \<Rightarrow>
                (case ch_failure c of
                   Some e \<Rightarrow> Inr (None, xerces_catch e (run_chunk c cs r2))
                 | None \<Rightarrow> xerces_deliver (run_chunk c cs r2))))"
    unfolding NextFeatureXerces_def Let_def r2_def using False by (simp only: if_True simp_thms)
  show ?thesis
  proof (cases "m_GMLInputSource r2")
    case False
    with nf have "NextFeatureXerces env r = Inr (None, r2)" by simp
    with ok2 s2 show ?thesis by simp
  next
    case True
    with src2 have sax: "m_poSAXReader r2" by simp
    show ?thesis
    proof (cases "unread r2")
      case Nil
      with nf True sax have "NextFeatureXerces env r = Inr (None, r2)" by simp
      with ok2 s2 show ?thesis by simp
    next
      case (Cons c cs)
      let ?rc = "run_chunk c cs r2"
      have quiet: "ends_no_feature c" using q2 sax Cons by (simp add: quiet_start_def)
      obtain fl where fp: "fpGML r2 = Some fl"
        using Cons by (cases "fpGML r2") (simp_all add: unread_def)
      have c: "ctrl ?rc = ctrl r2" and u: "unread ?rc = cs"
        and l: "m_poCompleteFeature ?rc = None"
        using quiet latch2 by (simp_all add: run_chunk_ctrl fp)
      have yc: "pull_yields (unread ?rc)"
        using y2 Cons u pull_yields_tail by simp
      have okc: "reader_ok env ?rc"
        using ok2
      proof (rule reader_ok_cong)
        show "m_poCompleteFeature ?rc = None" by (rule l)
        show "pull_yields (unread ?rc)" by (rule yc)
        show "m_bReadStarted ?rc" using c st2 by (simp add: ctrl_def)
      qed (use c in \<open>simp_all add: ctrl_def\<close>)
      have xc: "\<not> bUseExpatReader ?rc" and stc: "m_bReadStarted ?rc"
        and sc: "m_bStopParsing ?rc = m_bStopParsing r"
        using c x2 st2 s2 by (simp_all add: ctrl_def)
      show ?thesis
      proof (cases "ch_failure c")
        case (Some e)
        with nf True sax Cons
        have res: "NextFeatureXerces env r = Inr (None, xerces_catch e ?rc)" by simp
        have "reader_ok env (xerces_catch e ?rc)"
          using okc
        proof (rule reader_ok_cong)
          show "m_poCompleteFeature (xerces_catch e ?rc) = None"
            using l by (simp add: xerces_catch_ctrl)
          show "pull_yields (unread (xerces_catch e ?rc))"
            using yc by (simp add: unread_def xerces_catch_ctrl)
          show "m_bReadStarted (xerces_catch e ?rc)" using stc by (simp add: xerces_catch_ctrl)
        qed (simp_all add: xerces_catch_ctrl)
        with res show ?thesis by (simp add: xerces_catch_ctrl)
      next
        case None
        with nf True sax Cons
        have res: "NextFeatureXerces env r = xerces_deliver ?rc" by simp
        from xerces_deliver_ok [OF okc xc stc] show ?thesis
          unfolding res sc by simp
      qed
    qed
  qed
qed

lemma NextFeatureExpat_ok:
  assumes "bUseExpatReader r" and "NextFeatureExpat env r = Inr (f, r')"
  shows "bUseExpatReader r'"
proof -
  let ?r1 = "if \<not> m_bReadStarted r
             then (if \<not> oParser r then snd (SetupParser env r) else r)\<lparr> m_bReadStarted := True \<rparr>
             else r"
  let ?r2 = "expat_loop (unread ?r1) (?r1\<lparr> ppoFeatureTab := [], nFeatureTabIndex := 0 \<rparr>)"
  have b1: "bUseExpatReader ?r1" using assms(1) by (simp add: SetupParser_keeps)
  have b2: "bUseExpatReader ?r2"
    using expat_loop_frame [of "unread ?r1" "?r1\<lparr> ppoFeatureTab := [], nFeatureTabIndex := 0 \<rparr>"]
      b1 by simp
  from assms(2) have "r' = ?r1 \<or> r' = ?r1\<lparr> nFeatureTabIndex := nFeatureTabIndex ?r1 + 1 \<rparr>
      \<or> r' = ?r2\<lparr> nFeatureTabIndex := nFeatureTabIndex ?r2 + 1 \<rparr> \<or> r' = ?r2"
    unfolding NextFeatureExpat_def Let_def by (auto split: if_splits)
  then show ?thesis using b1 b2 by auto
qed

lemma NextFeature_ok:
  assumes ok: "reader_ok env r"
  shows "(m_bStopParsing r \<longrightarrow> (\<exists>r'. NextFeature env r = Inr (None, r')))
       \<and> (\<forall>f r'. NextFeature env r = Inr (f, r') \<longrightarrow>
            reader_ok env r' \<and> (m_bStopParsing r \<longrightarrow> m_bStopParsing r')
            \<and> (\<not> bUseExpatReader r \<and> m_bStopParsing r' \<longrightarrow> f = None))"
proof (cases "bUseExpatReader r")
  case False
  then have "NextFeature env r = NextFeatureXerces env r" by (simp add: NextFeature_def)
  with NextFeatureXerces_ok [OF ok False] show ?thesis by simp
next
  case True
  then have nf: "NextFeature env r = NextFeatureExpat env r" by (simp add: NextFeature_def)
  have a: "m_bStopParsing r \<longrightarrow> (\<exists>r'. NextFeature env r = Inr (None, r'))"
    using NextFeatureExpat_stopped [of r env] True nf by auto
  have b: "\<forall>f r'. NextFeature env r = Inr (f, r') \<longrightarrow>
            reader_ok env r' \<and> (m_bStopParsing r \<longrightarrow> m_bStopParsing r')"
  proof (intro allI impI)
    fix f r' assume d: "NextFeature env r = Inr (f, r')"
    then have "bUseExpatReader r'" using NextFeatureExpat_ok [OF True] nf by simp
    then have "reader_ok env r'" by (simp add: reader_ok_def)
    moreover have "m_bStopParsing r \<longrightarrow> m_bStopParsing r'"
      using NextFeatureExpat_stopped [of r env] True nf d by auto
    ultimately show "reader_ok env r' \<and> (m_bStopParsing r \<longrightarrow> m_bStopParsing r')" by simp
  qed
  from a b True show ?thesis by simp
qed

lemma run_calls_stopped:
  "reader_ok env r \<Longrightarrow> m_bStopParsing r \<Longrightarrow>
   \<exists>r'. run_calls env calls r
           = Inr (map (\<lambda>c. None) (filter (\<lambda>c. c = Call_NextFeature) calls), r')
        \<and> m_bStopParsing r' \<and> reader_ok env r'"
proof (induction calls arbitrary: r)
  case Nil
  then show ?case by simp
next
  case (Cons c calls)
  show ?case
  proof (cases c)
    case Call_ResetReading
    from ResetReading_ok [OF Cons.prems(1)] Cons.prems(2)
    have "reader_ok env (ResetReading r)" "m_bStopParsing (ResetReading r)" by simp_all
    from Cons.IH [OF this] show ?thesis by (simp add: Call_ResetReading)
  next
    case Call_NextFeature
    from NextFeature_ok [OF Cons.prems(1)] Cons.prems(2)
    obtain r1 where r1: "NextFeature env r = Inr (None, r1)"
      "reader_ok env r1" "m_bStopParsing r1" by blast
    from Cons.IH [OF r1(2,3)] obtain r' where
      "run_calls env calls r1
           = Inr (map (\<lambda>c. None) (filter (\<lambda>c. c = Call_NextFeature) calls), r')"
      "m_bStopParsing r'" "reader_ok env r'" by blast
    with r1(1) show ?thesis by (simp add: Call_NextFeature)
  qed
qed

lemma new_reader_ok:
  "reader_ok env (SetSourceFile name (new_GMLReader bExpat bInvert bURN))
     = (bExpat \<or> (case VSIFOpenL env (Some name) of
                     None \<Rightarrow> True
                   | Some doc \<Rightarrow> pull_contract doc))"
  by (simp add: reader_ok_def SetSourceFile_def new_GMLReader_def unread_def pull_yields_def)

text \<open>
  C8. \<open>m_bStopParsing\<close> is never cleared, and with it set every call of \<open>NextFeature\<close>
  returns normally with no feature, on both backends and whatever calls of
  \<open>ResetReading\<close> come in between; stated for any sequence \<open>calls\<close> of the two. On
  Xerces this holds of the readers described by \<open>reader_ok\<close>: \<open>NextFeatureXerces\<close> does
  not test the flag before it hands out \<open>m_poCompleteFeature\<close>, so it relies on no
  completed feature being held when the flag is set, which holds because a tokenizer call
  that is left by an exception has ended no feature. A new reader is such a reader when
  its file obeys \<open>pull_contract\<close>, and \<open>NextFeature\<close> and \<open>ResetReading\<close> lead from
  such readers to such readers. The Xerces call in which the flag is set returns no
  feature itself. The start of a feature element puts nothing into
  \<open>m_poCompleteFeature\<close> or \<open>ppoFeatureTab\<close>, from which alone \<open>NextFeature\<close> takes what
  it returns, so a feature whose end has not been reached is not handed out.
\<close>

theorem NextFeature_after_stop:
  "(reader_ok env r \<and> m_bStopParsing r \<longrightarrow>
      (\<exists>r'. run_calls env calls r
               = Inr (map (\<lambda>c. None) (filter (\<lambda>c. c = Call_NextFeature) calls), r')
           \<and> m_bStopParsing r' \<and> reader_ok env r'))
   \<and> (reader_ok env r \<longrightarrow>
        reader_ok env (ResetReading r)
        \<and> m_bStopParsing (ResetReading r) = m_bStopParsing r)
   \<and> (\<forall>f r'. reader_ok env r \<and> NextFeature env r = Inr (f, r') \<longrightarrow>
        reader_ok env r' \<and> (m_bStopParsing r \<longrightarrow> m_bStopParsing r')
        \<and> (\<not> bUseExpatReader r \<and> m_bStopParsing r' \<longrightarrow> f = None))
   \<and> reader_ok env (SetSourceFile name (new_GMLReader bExpat bInvert bURN))
       = (bExpat \<or> (case VSIFOpenL env (Some name) of
                       None \<Rightarrow> True
                     | Some doc \<Rightarrow> pull_contract doc))
   \<and> m_poCompleteFeature (run_call (CallPushFeature e fid g) r) = m_poCompleteFeature r
   \<and> ppoFeatureTab (run_call (CallPushFeature e fid g) r) = ppoFeatureTab r"
  using run_calls_stopped [of env r calls] ResetReading_ok [of env r] NextFeature_ok [of env r]
    new_reader_ok [of env name bExpat bInvert bURN] run_call_push(2,3) [of e fid g r]
  by blast

theorem NextFeature_after_stop_witness:
  "reader_ok (example_sys_env interrupted_document) (fresh_reader False)
   \<and> map_sum id fst (run_calls (example_sys_env interrupted_document)
                       [Call_NextFeature, Call_NextFeature] (fresh_reader False))
       = Inr [Some \<lparr> m_poClass = 0, m_pszFID = Some ''r1'', m_papszProperty = [],
                     m_papsGeometry = [] \<rparr>, None]
   \<and> reader_ok (example_sys_env interrupted_document) (after_failure False)
   \<and> m_bStopParsing (after_failure False)
   \<and> m_poSAXReader (after_failure False)
   \<and> map_sum id fst (run_calls (example_sys_env interrupted_document)
                       [Call_NextFeature, Call_ResetReading, Call_NextFeature]
                       (after_failure False))
       = Inr [None, None]
   \<and> m_bStopParsing (after_failure True)
   \<and> map_sum id fst (run_calls (example_sys_env interrupted_document)
                       [Call_NextFeature, Call_ResetReading, Call_NextFeature]
                       (after_failure True))
       = Inr [None, None]"
proof -
  let ?env = "example_sys_env interrupted_document"
  let ?calls = "[Call_NextFeature, Call_ResetReading, Call_NextFeature]"
  have start: "reader_ok ?env (fresh_reader False)" by code_simp
  have run: "map_sum id fst (run_calls ?env [Call_NextFeature, Call_NextFeature]
                               (fresh_reader False))
       = Inr [Some \<lparr> m_poClass = 0, m_pszFID = Some ''r1'', m_papszProperty = [],
                     m_papsGeometry = [] \<rparr>, None]"
    by code_simp
  have x: "reader_ok ?env (after_failure False)" "m_bStopParsing (after_failure False)"
    "m_poSAXReader (after_failure False)"
    by code_simp+
  have e: "reader_ok ?env (after_failure True)" "m_bStopParsing (after_failure True)"
    by code_simp+
  have nones: "map (\<lambda>c. None :: GMLFeature option)
                 (filter (\<lambda>c. c = Call_NextFeature) ?calls) = [None, None]"
    by simp
  from NextFeature_after_stop [where env = ?env and r = "after_failure False"
        and calls = ?calls] x(1,2)
  have "\<exists>r'. run_calls ?env ?calls (after_failure False)
               = Inr (map (\<lambda>c. None) (filter (\<lambda>c. c = Call_NextFeature) ?calls), r')"
    by blast
  then obtain rx where "run_calls ?env ?calls (after_failure False) = Inr ([None, None], rx)"
    unfolding nones by blast
  then have nx: "map_sum id fst (run_calls ?env ?calls (after_failure False))
                   = Inr [None, None]"
    by (simp only: map_sum.simps fst_conv)
  from NextFeature_after_stop [where env = ?env and r = "after_failure True"
        and calls = ?calls] e(1,2)
  have "\<exists>r'. run_calls ?env ?calls (after_failure True)
               = Inr (map (\<lambda>c. None) (filter (\<lambda>c. c = Call_NextFeature) ?calls), r')"
    by blast
  then obtain re where "run_calls ?env ?calls (after_failure True) = Inr ([None, None], re)"
    unfolding nones by blast
  then have ne: "map_sum id fst (run_calls ?env ?calls (after_failure True))
                   = Inr [None, None]"
    by (simp only: map_sum.simps fst_conv)
  from start run x nx e(2) ne show ?thesis by (intro conjI)
qed

end
